theory Spec2Isabelle
  imports Complex_Main "HOL-Library.Multiset"
begin

section \<open>Data model (offer.model.ts)\<close>

text \<open>
  \<^verbatim>\<open>Offer\<close> and \<^verbatim>\<open>UserVote\<close> are the interfaces of the model file. The field
  \<^verbatim>\<open>id\<close> is written \<open>id'\<close> because \<open>id\<close> is the identity function of HOL. The
  vote tally \<^verbatim>\<open>votes\<close> is a JavaScript number that holds an integer (the data model
  says so, and the store adds \<open>\<plusminus>1\<close> and \<open>\<plusminus>2\<close> to it): it is an \<open>int\<close>, and the
  arithmetic on it is that of doubles, given next. \<^verbatim>\<open>price\<close> is carried, never computed
  with, and \<^verbatim>\<open>createdAt\<close> is the time value of the date.
\<close>

subsection \<open>Numbers that hold integers\<close>

text \<open>
  A number is a double: it holds every integer up to \<open>2 ^ 53\<close> in magnitude and, above
  that, only the integers of 53 significant bits. The sum or difference of two numbers is
  the double nearest to the exact result, the one with the even significand when two are
  equally near. \<open>roundNat\<close> rounds a magnitude so: above \<open>2 ^ 53\<close> it keeps the 53
  leading bits \<open>q\<close> and rounds on the bits \<open>r\<close> it drops. A result of magnitude
  \<open>2 ^ 1024\<close> or more stands for an infinity.
\<close>

fun bitLength :: "nat \<Rightarrow> nat" where
  "bitLength n = (if n = 0 then 0 else Suc (bitLength (n div 2)))"

declare bitLength.simps [simp del]

definition roundNat :: "nat \<Rightarrow> nat" where
  "roundNat m =
     (if m < 2 ^ 53 then m
      else
        (let shift = bitLength m - 53;
             q = m div 2 ^ shift;
             r = m mod 2 ^ shift;
             half = 2 ^ (shift - 1)
         in (if half < r \<or> (r = half \<and> odd q) then q + 1 else q) * 2 ^ shift))"

definition roundDouble :: "int \<Rightarrow> int" where
  "roundDouble n = (if n < 0 then - int (roundNat (nat (- n))) else int (roundNat (nat n)))"

text \<open>
  \<^verbatim>\<open>a + b\<close> and \<^verbatim>\<open>a - b\<close> on tallies. The store adds and subtracts 1 and 2 only, and
  that never takes a double to an infinity (\<open>jsAdd_finite\<close> below).
\<close>

definition jsAdd :: "int \<Rightarrow> int \<Rightarrow> int" where
  "jsAdd a b = roundDouble (a + b)"

definition jsSub :: "int \<Rightarrow> int \<Rightarrow> int" where
  "jsSub a b = roundDouble (a - b)"

text \<open>\<^verbatim>\<open>Number.isSafeInteger\<close>: the integers on which the arithmetic of doubles is exact.\<close>

definition isSafeInteger :: "int \<Rightarrow> bool" where
  "isSafeInteger n \<longleftrightarrow> \<bar>n\<bar> \<le> 2 ^ 53 - 1"

text \<open>
  A tally that the data source computes from a change of any size can be an infinity, and
  stays one under every further change.
\<close>

datatype number = Finite int | PlusInfinity | MinusInfinity

definition toNumber :: "int \<Rightarrow> number" where
  "toNumber r =
     (if 2 ^ 1024 \<le> r then PlusInfinity
      else if r \<le> - (2 ^ 1024) then MinusInfinity
      else Finite r)"

definition numberAdd :: "number \<Rightarrow> int \<Rightarrow> number" where
  "numberAdd x b =
     (case x of
        Finite a \<Rightarrow> toNumber (jsAdd a b)
      | PlusInfinity \<Rightarrow> PlusInfinity
      | MinusInfinity \<Rightarrow> MinusInfinity)"

datatype OfferCondition = New | LikeNew | Good | Fair

record Offer =
  id' :: string
  title :: string
  description :: string
  price :: rat
  currency :: string
  imageUrl :: string
  votes :: int
  category :: string
  seller :: string
  condition :: OfferCondition
  createdAt :: int

text \<open>\<^verbatim>\<open>type VoteType = 1 | -1\<close>: a union of two literals, with its numeric reading.\<close>

datatype VoteType = Plus1 | Minus1

fun voteNumber :: "VoteType \<Rightarrow> int" where
  "voteNumber Plus1 = 1"
| "voteNumber Minus1 = - 1"

record UserVote =
  offerId :: string
  voteType :: VoteType

section \<open>The platform: JSON text\<close>

subsection \<open>\<^verbatim>\<open>JSON.stringify\<close> on a vote array\<close>

text \<open>
  \<^verbatim>\<open>JSON.stringify\<close> quotes a string by escaping the double quote, the backslash and the
  control characters below U+0020 (the five short escapes, \<^verbatim>\<open>\u00XX\<close> with lower-case
  hexadecimal digits for the others) and copies every other character. Strings are
  sequences of 8-bit characters here.
\<close>

definition hexDigit :: "nat \<Rightarrow> char" where
  "hexDigit n = (if n < 10 then char_of (48 + n) else char_of (87 + n))"

definition quoteChar :: "char \<Rightarrow> string" where
  "quoteChar c =
     (if c = CHR 0x22 then [CHR 0x5C, CHR 0x22]
      else if c = CHR 0x5C then [CHR 0x5C, CHR 0x5C]
      else if c = CHR 0x08 then [CHR 0x5C, CHR ''b'']
      else if c = CHR 0x0C then [CHR 0x5C, CHR ''f'']
      else if c = CHR 0x0A then [CHR 0x5C, CHR ''n'']
      else if c = CHR 0x0D then [CHR 0x5C, CHR ''r'']
      else if c = CHR 0x09 then [CHR 0x5C, CHR ''t'']
      else if (of_char c :: nat) < 32
        then [CHR 0x5C, CHR ''u'', CHR ''0'', CHR ''0'',
              hexDigit (of_char c div 16), hexDigit (of_char c mod 16)]
      else [c])"

definition quoteJSONString :: "string \<Rightarrow> string" where
  "quoteJSONString s = [CHR 0x22] @ concat (map quoteChar s) @ [CHR 0x22]"

fun stringifyVoteType :: "VoteType \<Rightarrow> string" where
  "stringifyVoteType Plus1 = ''1''"
| "stringifyVoteType Minus1 = ''-1''"

text \<open>An object \<^verbatim>\<open>{ offerId, voteType }\<close> is written with its keys in creation order.\<close>

definition stringifyUserVote :: "UserVote \<Rightarrow> string" where
  "stringifyUserVote v =
     ''{'' @ quoteJSONString ''offerId'' @ '':'' @ quoteJSONString (offerId v) @ '','' @
     quoteJSONString ''voteType'' @ '':'' @ stringifyVoteType (voteType v) @ ''}''"

fun joinComma :: "string list \<Rightarrow> string" where
  "joinComma [] = []"
| "joinComma [x] = x"
| "joinComma (x # y # ys) = x @ '','' @ joinComma (y # ys)"

definition JSON_stringify :: "UserVote list \<Rightarrow> string" where
  "JSON_stringify vs = ''['' @ joinComma (map stringifyUserVote vs) @ '']''"

subsection \<open>\<^verbatim>\<open>JSON.parse\<close>\<close>

text \<open>
  \<^verbatim>\<open>JSON.parse\<close> reads one value of the JSON grammar, with white space around it and
  around every token, and throws a \<^verbatim>\<open>SyntaxError\<close> on any other text. A string of the
  value is a sequence of 16-bit code units (an escape \<^verbatim>\<open>\uXXXX\<close> names any of them);
  the characters of the text are 8-bit. The members of an object are kept in the order of
  the text.
\<close>

datatype json =
    JNull
  | JBool bool
  | JNumber rat
  | JString "nat list"
  | JArray "json list"
  | JObject "(nat list \<times> json) list"

definition isWhitespace :: "char \<Rightarrow> bool" where
  "isWhitespace c \<longleftrightarrow> c = CHR 0x20 \<or> c = CHR 0x09 \<or> c = CHR 0x0A \<or> c = CHR 0x0D"

definition skipWhitespace :: "string \<Rightarrow> string" where
  "skipWhitespace s = dropWhile isWhitespace s"

definition isDigit :: "char \<Rightarrow> bool" where
  "isDigit c \<longleftrightarrow> 48 \<le> (of_char c :: nat) \<and> (of_char c :: nat) \<le> 57"

definition digitsValue :: "string \<Rightarrow> nat" where
  "digitsValue ds = foldl (\<lambda>n c. 10 * n + (of_char c - 48)) 0 ds"

definition hexValue :: "char \<Rightarrow> nat option" where
  "hexValue c =
     (let n = (of_char c :: nat) in
      if 48 \<le> n \<and> n \<le> 57 then Some (n - 48)
      else if 97 \<le> n \<and> n \<le> 102 then Some (n - 87)
      else if 65 \<le> n \<and> n \<le> 70 then Some (n - 55)
      else None)"

definition hex4 :: "char \<Rightarrow> char \<Rightarrow> char \<Rightarrow> char \<Rightarrow> nat option" where
  "hex4 a b c d =
     (case (hexValue a, hexValue b, hexValue c, hexValue d) of
        (Some h3, Some h2, Some h1, Some h0) \<Rightarrow> Some (4096 * h3 + 256 * h2 + 16 * h1 + h0)
      | _ \<Rightarrow> None)"

definition escapeValue :: "char \<Rightarrow> nat option" where
  "escapeValue e =
     (if e = CHR 0x22 then Some 34
      else if e = CHR 0x5C then Some 92
      else if e = CHR ''/'' then Some 47
      else if e = CHR ''b'' then Some 8
      else if e = CHR ''f'' then Some 12
      else if e = CHR ''n'' then Some 10
      else if e = CHR ''r'' then Some 13
      else if e = CHR ''t'' then Some 9
      else None)"

definition consUnit :: "nat \<Rightarrow> (nat list \<times> string) option \<Rightarrow> (nat list \<times> string) option" where
  "consUnit n r = (case r of None \<Rightarrow> None | Some (units, rest) \<Rightarrow> Some (n # units, rest))"

fun parseChars :: "string \<Rightarrow> (nat list \<times> string) option" where
  "parseChars [] = None"
| "parseChars (c # cs) =
     (if c = CHR 0x22 then Some ([], cs)
      else if c = CHR 0x5C then
        (case cs of
           [] \<Rightarrow> None
         | e # es \<Rightarrow>
             if e = CHR ''u'' then
               (case es of
                  h3 # h2 # h1 # h0 # rest \<Rightarrow>
                    (case hex4 h3 h2 h1 h0 of
                       None \<Rightarrow> None
                     | Some n \<Rightarrow> consUnit n (parseChars rest))
                | _ \<Rightarrow> None)
             else
               (case escapeValue e of
                  None \<Rightarrow> None
                | Some n \<Rightarrow> consUnit n (parseChars es)))
      else if (of_char c :: nat) < 32 then None
      else consUnit (of_char c) (parseChars cs))"

text \<open>
  A number is an optional minus sign, an integer part without a leading zero, an optional
  fraction and an optional exponent. Its value is kept exactly, as a rational.
\<close>

definition parseSign :: "string \<Rightarrow> bool \<times> string" where
  "parseSign s = (case s of [] \<Rightarrow> (False, s) | c # cs \<Rightarrow> if c = CHR ''-'' then (True, cs) else (False, s))"

definition parseInt :: "string \<Rightarrow> (string \<times> string) option" where
  "parseInt s =
     (case s of
        [] \<Rightarrow> None
      | c # cs \<Rightarrow>
          if c = CHR ''0'' then Some ([c], cs)
          else if isDigit c then Some (takeWhile isDigit s, dropWhile isDigit s)
          else None)"

definition parseFraction :: "string \<Rightarrow> (string \<times> string) option" where
  "parseFraction s =
     (case s of
        [] \<Rightarrow> Some ([], s)
      | c # cs \<Rightarrow>
          if c = CHR ''.'' then
            (if takeWhile isDigit cs = [] then None
             else Some (takeWhile isDigit cs, dropWhile isDigit cs))
          else Some ([], s))"

definition parseExponentDigits :: "int \<Rightarrow> string \<Rightarrow> (int \<times> string) option" where
  "parseExponentDigits sign s =
     (if takeWhile isDigit s = [] then None
      else Some (sign * int (digitsValue (takeWhile isDigit s)), dropWhile isDigit s))"

definition parseExponent :: "string \<Rightarrow> (int \<times> string) option" where
  "parseExponent s =
     (case s of
        [] \<Rightarrow> Some (0, s)
      | c # cs \<Rightarrow>
          if c = CHR ''e'' \<or> c = CHR ''E'' then
            (case cs of
               [] \<Rightarrow> None
             | d # ds \<Rightarrow>
                 if d = CHR ''+'' then parseExponentDigits 1 ds
                 else if d = CHR ''-'' then parseExponentDigits (- 1) ds
                 else parseExponentDigits 1 cs)
          else Some (0, s))"

definition numberValue :: "bool \<Rightarrow> string \<Rightarrow> string \<Rightarrow> int \<Rightarrow> rat" where
  "numberValue negative whole fraction exponent =
     (let mantissa = of_nat (digitsValue (whole @ fraction)) / 10 ^ length fraction;
          scaled = (if 0 \<le> exponent then mantissa * 10 ^ nat exponent
                    else mantissa / 10 ^ nat (- exponent))
      in if negative then - scaled else scaled)"

definition parseNumber :: "string \<Rightarrow> (rat \<times> string) option" where
  "parseNumber s =
     (case parseSign s of (negative, s1) \<Rightarrow>
      (case parseInt s1 of
         None \<Rightarrow> None
       | Some (whole, s2) \<Rightarrow>
           (case parseFraction s2 of
              None \<Rightarrow> None
            | Some (fraction, s3) \<Rightarrow>
                (case parseExponent s3 of
                   None \<Rightarrow> None
                 | Some (exponent, s4) \<Rightarrow>
                     Some (numberValue negative whole fraction exponent, s4)))))"

text \<open>
  The parser is a recursive descent with fuel: a call that would need more fuel than it
  has gives \<open>Exhausted\<close>, kept apart from \<open>Invalid\<close>, the text that is not JSON.
  \<open>Parsed v rest\<close> is a value and the text after it.
\<close>

datatype 'a parsed = Parsed 'a string | Invalid | Exhausted

fun parseValue :: "nat \<Rightarrow> string \<Rightarrow> json parsed"
  and parseElements :: "nat \<Rightarrow> string \<Rightarrow> json list parsed"
  and parseMembers :: "nat \<Rightarrow> string \<Rightarrow> (nat list \<times> json) list parsed"
where
  "parseValue 0 s = Exhausted"
| "parseValue (Suc n) s =
     (case s of
        [] \<Rightarrow> Invalid
      | c # cs \<Rightarrow>
          if c = CHR ''{'' then
            (case skipWhitespace cs of
               [] \<Rightarrow> Invalid
             | d # ds \<Rightarrow>
                 if d = CHR ''}'' then Parsed (JObject []) ds
                 else (case parseMembers n (d # ds) of
                         Parsed members rest \<Rightarrow> Parsed (JObject members) rest
                       | Invalid \<Rightarrow> Invalid
                       | Exhausted \<Rightarrow> Exhausted))
          else if c = CHR ''['' then
            (case skipWhitespace cs of
               [] \<Rightarrow> Invalid
             | d # ds \<Rightarrow>
                 if d = CHR '']'' then Parsed (JArray []) ds
                 else (case parseElements n (d # ds) of
                         Parsed elements rest \<Rightarrow> Parsed (JArray elements) rest
                       | Invalid \<Rightarrow> Invalid
                       | Exhausted \<Rightarrow> Exhausted))
          else if c = CHR 0x22 then
            (case parseChars cs of
               None \<Rightarrow> Invalid
             | Some (units, rest) \<Rightarrow> Parsed (JString units) rest)
          else if take 4 s = ''true'' then Parsed (JBool True) (drop 4 s)
          else if take 5 s = ''false'' then Parsed (JBool False) (drop 5 s)
          else if take 4 s = ''null'' then Parsed JNull (drop 4 s)
          else (case parseNumber s of
                  None \<Rightarrow> Invalid
                | Some (q, rest) \<Rightarrow> Parsed (JNumber q) rest))"
| "parseElements 0 s = Exhausted"
| "parseElements (Suc n) s =
     (case parseValue n s of
        Parsed v rest \<Rightarrow>
          (case skipWhitespace rest of
             [] \<Rightarrow> Invalid
           | c # cs \<Rightarrow>
               if c = CHR '','' then
                 (case parseElements n (skipWhitespace cs) of
                    Parsed vs rest' \<Rightarrow> Parsed (v # vs) rest'
                  | Invalid \<Rightarrow> Invalid
                  | Exhausted \<Rightarrow> Exhausted)
               else if c = CHR '']'' then Parsed [v] cs
               else Invalid)
      | Invalid \<Rightarrow> Invalid
      | Exhausted \<Rightarrow> Exhausted)"
| "parseMembers 0 s = Exhausted"
| "parseMembers (Suc n) s =
     (case s of
        [] \<Rightarrow> Invalid
      | c # cs \<Rightarrow>
          if c \<noteq> CHR 0x22 then Invalid
          else
            (case parseChars cs of
               None \<Rightarrow> Invalid
             | Some (key, rest) \<Rightarrow>
                 (case skipWhitespace rest of
                    [] \<Rightarrow> Invalid
                  | d # ds \<Rightarrow>
                      if d \<noteq> CHR '':'' then Invalid
                      else
                        (case parseValue n (skipWhitespace ds) of
                           Parsed v rest' \<Rightarrow>
                             (case skipWhitespace rest' of
                                [] \<Rightarrow> Invalid
                              | e # es \<Rightarrow>
                                  if e = CHR '','' then
                                    (case parseMembers n (skipWhitespace es) of
                                       Parsed members rest'' \<Rightarrow> Parsed ((key, v) # members) rest''
                                     | Invalid \<Rightarrow> Invalid
                                     | Exhausted \<Rightarrow> Exhausted)
                                  else if e = CHR ''}'' then Parsed [(key, v)] es
                                  else Invalid)
                         | Invalid \<Rightarrow> Invalid
                         | Exhausted \<Rightarrow> Exhausted))))"

datatype ParseResult = Value json | SyntaxErrorThrown | FuelExhausted

text \<open>
  The fuel \<open>2 * length text + 1\<close> is enough for every text (\<open>JSON_parse_total\<close>
  below), so \<open>FuelExhausted\<close> is never the result.
\<close>

definition JSON_parse :: "string \<Rightarrow> ParseResult" where
  "JSON_parse text =
     (case parseValue (2 * length text + 1) (skipWhitespace text) of
        Parsed v rest \<Rightarrow> if skipWhitespace rest = [] then Value v else SyntaxErrorThrown
      | Invalid \<Rightarrow> SyntaxErrorThrown
      | Exhausted \<Rightarrow> FuelExhausted)"

subsection \<open>JSON values of type \<^verbatim>\<open>UserVote[]\<close>\<close>

text \<open>
  \<^verbatim>\<open>JSON.parse\<close> returns \<^verbatim>\<open>any\<close>; the store keeps the value without a check.
  \<open>decodeUserVotes\<close> gives the vote list a value stands for when it is of type
  \<^verbatim>\<open>UserVote[]\<close>: an array of objects whose \<^verbatim>\<open>offerId\<close> is a string (of 8-bit
  characters here) and whose \<^verbatim>\<open>voteType\<close> is the number 1 or -1. The last member
  with a key is the one an object has. A number literal stands for the double nearest to
  its value, which is 1 exactly for the values from \<open>1 - 1 / 2 ^ 54\<close> to \<open>1 + 1 / 2 ^ 53\<close>.
\<close>

definition unitsOf :: "string \<Rightarrow> nat list" where
  "unitsOf s = map of_char s"

definition stringOf :: "nat list \<Rightarrow> string option" where
  "stringOf units = (if list_all (\<lambda>n. n < 256) units then Some (map char_of units) else None)"

definition memberValue :: "string \<Rightarrow> (nat list \<times> json) list \<Rightarrow> json option" where
  "memberValue key members = map_of (rev members) (unitsOf key)"

definition decodeVoteType :: "json \<Rightarrow> VoteType option" where
  "decodeVoteType j =
     (case j of
        JNumber q \<Rightarrow>
          if 1 - 1 / 2 ^ 54 \<le> q \<and> q \<le> 1 + 1 / 2 ^ 53 then Some Plus1
          else if - (1 + 1 / 2 ^ 53) \<le> q \<and> q \<le> - (1 - 1 / 2 ^ 54) then Some Minus1
          else None
      | _ \<Rightarrow> None)"

definition decodeUserVote :: "json \<Rightarrow> UserVote option" where
  "decodeUserVote j =
     (case j of
        JObject members \<Rightarrow>
          (case memberValue ''offerId'' members of
             Some (JString units) \<Rightarrow>
               (case (stringOf units, Option.bind (memberValue ''voteType'' members) decodeVoteType) of
                  (Some oid, Some vt) \<Rightarrow> Some \<lparr>offerId = oid, voteType = vt\<rparr>
                | _ \<Rightarrow> None)
           | _ \<Rightarrow> None)
      | _ \<Rightarrow> None)"

definition decodeUserVotes :: "json \<Rightarrow> UserVote list option" where
  "decodeUserVotes j =
     (case j of JArray elements \<Rightarrow> those (map decodeUserVote elements) | _ \<Rightarrow> None)"

text \<open>The value \<^verbatim>\<open>JSON.parse\<close> gives for a written vote.\<close>

definition voteJson :: "UserVote \<Rightarrow> json" where
  "voteJson v =
     JObject [(unitsOf ''offerId'', JString (unitsOf (offerId v))),
              (unitsOf ''voteType'', JNumber (of_int (voteNumber (voteType v))))]"

section \<open>The offer feed store (offers.store.ts)\<close>

subsection \<open>State\<close>

text \<open>
  The page response of the data source, and the state of the \<^verbatim>\<open>rxResource\<close> that
  fetches the page of the current cursor: loading, resolved with the last response, or
  failed with the error whose message \<^verbatim>\<open>error()\<close> shows.
\<close>

record OffersPageResponse =
  r_offers :: "Offer list"
  r_total :: nat
  r_page :: nat
  r_pageSize :: nat
  r_hasMore :: bool

datatype Resource = Loading | Resolved OffersPageResponse | Failed string

text \<open>
  The store's four fields, followed by its environment: the slot
  \<^verbatim>\<open>rebuy_user_votes\<close> of \<^verbatim>\<open>localStorage\<close> (\<open>None\<close> when the key is absent) and
  the calls made to the data source so far, \<^verbatim>\<open>getOffers(page, pageSize)\<close> and
  \<^verbatim>\<open>updateVote(offerId, change)\<close>, oldest first; \<open>fetchesInFlight\<close> holds the pages
  of the \<^verbatim>\<open>getOffers\<close> calls that have not answered yet.
\<close>

record OffersStore =
  currentPage :: nat
  accumulatedOffers :: "Offer list"
  userVotesSignal :: "UserVote list"
  offersResource :: Resource
  localStorage :: "string option"
  getOffersCalls :: "(nat \<times> nat) list"
  fetchesInFlight :: "nat list"
  updateVoteCalls :: "(string \<times> int) list"

definition pageSize :: nat where
  "pageSize = 10"

subsection \<open>Derived signals\<close>

text \<open>
  \<^verbatim>\<open>Array.prototype.sort\<close> with a comparator. The language requires the sort to be
  stable; an insertion sort that puts an element before the first one it does not
  follow is such a sort. \<^verbatim>\<open>offers\<close> sorts a copy of the accumulated array with the
  comparator \<^verbatim>\<open>(a, b) => b.votes - a.votes\<close>.
\<close>

fun insertBy :: "('a \<Rightarrow> 'a \<Rightarrow> int) \<Rightarrow> 'a \<Rightarrow> 'a list \<Rightarrow> 'a list" where
  "insertBy cmp x [] = [x]"
| "insertBy cmp x (y # ys) = (if cmp x y \<le> 0 then x # y # ys else y # insertBy cmp x ys)"

definition arraySort :: "('a \<Rightarrow> 'a \<Rightarrow> int) \<Rightarrow> 'a list \<Rightarrow> 'a list" where
  "arraySort cmp xs = foldr (insertBy cmp) xs []"

definition offers :: "OffersStore \<Rightarrow> Offer list" where
  "offers s = arraySort (\<lambda>a b. votes b - votes a) (accumulatedOffers s)"

definition loading :: "OffersStore \<Rightarrow> bool" where
  "loading s = (offersResource s = Loading)"

definition error :: "OffersStore \<Rightarrow> string option" where
  "error s = (case offersResource s of Failed m \<Rightarrow> Some m | _ \<Rightarrow> None)"

definition userVotes :: "OffersStore \<Rightarrow> UserVote list" where
  "userVotes s = userVotesSignal s"

definition getOfferById :: "string \<Rightarrow> OffersStore \<Rightarrow> Offer option" where
  "getOfferById i s = find (\<lambda>offer. id' offer = i) (accumulatedOffers s)"

definition getUserVote :: "string \<Rightarrow> OffersStore \<Rightarrow> int" where
  "getUserVote oid s =
     (case find (\<lambda>v. offerId v = oid) (userVotesSignal s) of
        None \<Rightarrow> 0
      | Some vote \<Rightarrow> voteNumber (voteType vote))"

text \<open>
  \<^verbatim>\<open>hasMore\<close> reads \<^verbatim>\<open>offersResource.value()\<close>. While the resource loads the page of a
  new cursor its value is \<^verbatim>\<open>undefined\<close>, so the default \<^verbatim>\<open>true\<close> applies. The store
  builds the resource with \<^verbatim>\<open>params\<close> and \<^verbatim>\<open>stream\<close>, the interface of Angular 20 and
  later (the repository names Angular 21), where reading the value of a resource in the
  error state throws a \<^verbatim>\<open>ResourceValueError\<close> that carries the error; the computed
  signal throws it again to whoever reads \<^verbatim>\<open>hasMore()\<close>.
\<close>

datatype JsError = ResourceValueError string | SyntaxError

definition hasMore :: "OffersStore \<Rightarrow> JsError + bool" where
  "hasMore s =
     (case offersResource s of
        Resolved resource \<Rightarrow> Inr (r_hasMore resource)
      | Loading \<Rightarrow> Inr True
      | Failed m \<Rightarrow> Inl (ResourceValueError m))"

subsection \<open>Pagination\<close>

text \<open>
  Advancing the cursor changes the parameters of the resource, which starts loading and
  asks the data source for the page of the new cursor. The guard reads \<^verbatim>\<open>loading()\<close>
  first and \<^verbatim>\<open>hasMore()\<close> only when nothing is loading; what \<^verbatim>\<open>hasMore()\<close> throws
  leaves \<^verbatim>\<open>loadNextPage\<close>, which has no \<^verbatim>\<open>try\<close>.
\<close>

definition loadNextPage :: "OffersStore \<Rightarrow> JsError + OffersStore" where
  "loadNextPage s =
     (if \<not> loading s then
        (case hasMore s of
           Inl e \<Rightarrow> Inl e
         | Inr continue \<Rightarrow>
             if continue then
               Inr (s\<lparr>currentPage := currentPage s + 1,
                      offersResource := Loading,
                      getOffersCalls := getOffersCalls s @ [(currentPage s + 1, pageSize)],
                      fetchesInFlight := fetchesInFlight s @ [currentPage s + 1]\<rparr>)
             else Inr s)
      else Inr s)"

text \<open>
  The two ways a pending \<^verbatim>\<open>getOffers\<close> call ends. On a response the \<^verbatim>\<open>tap\<close> appends its
  offers to the accumulated ones and the resource resolves to the response; on an error
  the resource fails with it.
\<close>

definition fetchNext :: "OffersPageResponse \<Rightarrow> OffersStore \<Rightarrow> OffersStore" where
  "fetchNext response s =
     s\<lparr>accumulatedOffers := accumulatedOffers s @ r_offers response,
       offersResource := Resolved response,
       fetchesInFlight := tl (fetchesInFlight s)\<rparr>"

definition fetchError :: "string \<Rightarrow> OffersStore \<Rightarrow> OffersStore" where
  "fetchError message s =
     s\<lparr>offersResource := Failed message,
       fetchesInFlight := tl (fetchesInFlight s)\<rparr>"

text \<open>
  The store right after construction, given the loaded votes: the cursor is 0, nothing is
  accumulated, and the resource is loading page 0.
\<close>

definition initialStore :: "UserVote list \<Rightarrow> string option \<Rightarrow> OffersStore" where
  "initialStore loaded storage =
     \<lparr>currentPage = 0, accumulatedOffers = [], userVotesSignal = loaded,
      offersResource = Loading, localStorage = storage,
      getOffersCalls = [(0, pageSize)], fetchesInFlight = [0], updateVoteCalls = []\<rparr>"

subsection \<open>Voting\<close>

definition addUserVote :: "string \<Rightarrow> VoteType \<Rightarrow> OffersStore \<Rightarrow> OffersStore" where
  "addUserVote oid vt s =
     s\<lparr>userVotesSignal := userVotesSignal s @ [\<lparr>offerId = oid, voteType = vt\<rparr>]\<rparr>"

definition updateUserVote :: "string \<Rightarrow> VoteType \<Rightarrow> OffersStore \<Rightarrow> OffersStore" where
  "updateUserVote oid vt s =
     s\<lparr>userVotesSignal :=
         map (\<lambda>v. if offerId v = oid then v\<lparr>voteType := vt\<rparr> else v) (userVotesSignal s)\<rparr>"

definition removeVote :: "string \<Rightarrow> OffersStore \<Rightarrow> OffersStore" where
  "removeVote oid s =
     s\<lparr>userVotesSignal := filter (\<lambda>v. offerId v \<noteq> oid) (userVotesSignal s)\<rparr>"

text \<open>
  \<^verbatim>\<open>updateOfferVotes\<close> changes the tally at once and calls the data source. The observable
  it subscribes to answers later (or, for a data source that fails at once, inside the
  call): \<open>updateVoteNext\<close> and \<open>updateVoteError\<close> are the two callbacks of the
  subscription, closed over \<^verbatim>\<open>offerId\<close> and \<^verbatim>\<open>change\<close>.
\<close>

definition updateOfferVotes :: "string \<Rightarrow> int \<Rightarrow> OffersStore \<Rightarrow> OffersStore" where
  "updateOfferVotes oid change s =
     s\<lparr>accumulatedOffers :=
         map (\<lambda>offer. if id' offer = oid then offer\<lparr>votes := jsAdd (votes offer) change\<rparr>
                      else offer)
           (accumulatedOffers s),
       updateVoteCalls := updateVoteCalls s @ [(oid, change)]\<rparr>"

definition updateVoteNext :: "string \<Rightarrow> int \<Rightarrow> OffersStore \<Rightarrow> OffersStore" where
  "updateVoteNext oid change s = s"

definition updateVoteError :: "string \<Rightarrow> int \<Rightarrow> OffersStore \<Rightarrow> OffersStore" where
  "updateVoteError oid change s =
     s\<lparr>accumulatedOffers :=
         map (\<lambda>offer. if id' offer = oid then offer\<lparr>votes := jsSub (votes offer) change\<rparr>
                      else offer)
           (accumulatedOffers s)\<rparr>"

definition saveUserVotes :: "OffersStore \<Rightarrow> OffersStore" where
  "saveUserVotes s = s\<lparr>localStorage := Some (JSON_stringify (userVotesSignal s))\<rparr>"

definition upvote :: "string \<Rightarrow> OffersStore \<Rightarrow> OffersStore" where
  "upvote oid s =
     (let currentVote = find (\<lambda>v. offerId v = oid) (userVotesSignal s) in
      saveUserVotes
       (if map_option voteType currentVote = Some Plus1
          then updateOfferVotes oid (- 1) (removeVote oid s)
        else if map_option voteType currentVote = Some Minus1
          then updateOfferVotes oid 2 (updateUserVote oid Plus1 s)
        else updateOfferVotes oid 1 (addUserVote oid Plus1 s)))"

definition downvote :: "string \<Rightarrow> OffersStore \<Rightarrow> OffersStore" where
  "downvote oid s =
     (let currentVote = find (\<lambda>v. offerId v = oid) (userVotesSignal s) in
      saveUserVotes
       (if map_option voteType currentVote = Some Minus1
          then updateOfferVotes oid 1 (removeVote oid s)
        else if map_option voteType currentVote = Some Plus1
          then updateOfferVotes oid (- 2) (updateUserVote oid Minus1 s)
        else updateOfferVotes oid (- 1) (addUserVote oid Minus1 s)))"

subsection \<open>Persistence and construction\<close>

text \<open>
  \<^verbatim>\<open>loadUserVotes\<close> is \<^verbatim>\<open>stored ? JSON.parse(stored) : []\<close>: the absent key
  (\<^verbatim>\<open>null\<close>) and the empty string are falsy. There is no \<^verbatim>\<open>try\<close> around the call,
  in the method or where the field initialiser calls it, so what \<^verbatim>\<open>JSON.parse\<close> throws
  leaves the constructor.
\<close>

definition loadUserVotes :: "string option \<Rightarrow> ParseResult" where
  "loadUserVotes storage =
     (case storage of
        None \<Rightarrow> Value (JArray [])
      | Some stored \<Rightarrow> if stored = [] then Value (JArray []) else JSON_parse stored)"

text \<open>
  Constructing the store either gives a store, or throws, or (\<open>IllTyped\<close>) gives a store
  whose vote signal holds a value that is not of type \<^verbatim>\<open>UserVote[]\<close>, which the typed
  state cannot hold. \<open>Unfinished\<close> stands for a parse that ran out of fuel, which does
  not happen (\<open>newStore_finishes\<close>).
\<close>

datatype Construction = Constructed OffersStore | Thrown JsError | IllTyped json | Unfinished

definition newStore :: "string option \<Rightarrow> Construction" where
  "newStore storage =
     (case loadUserVotes storage of
        Value j \<Rightarrow>
          (case decodeUserVotes j of
             Some loaded \<Rightarrow> Constructed (initialStore loaded storage)
           | None \<Rightarrow> IllTyped j)
      | SyntaxErrorThrown \<Rightarrow> Thrown SyntaxError
      | FuelExhausted \<Rightarrow> Unfinished)"

subsection \<open>Runs of the store\<close>

text \<open>
  What can happen to a store: a call of one of its three operations, the answer of the
  pending page fetch, or the failure of a vote update that was sent. An exception of
  \<^verbatim>\<open>loadNextPage\<close> is raised before anything is written, so it leaves the state as it is.
\<close>

datatype Event =
    LoadNextPage
  | FetchNext OffersPageResponse
  | FetchError string
  | Upvote string
  | Downvote string
  | UpdateVoteError string int

fun step :: "OffersStore \<Rightarrow> Event \<Rightarrow> OffersStore" where
  "step s LoadNextPage = (case loadNextPage s of Inl e \<Rightarrow> s | Inr s' \<Rightarrow> s')"
| "step s (FetchNext response) = (if fetchesInFlight s = [] then s else fetchNext response s)"
| "step s (FetchError message) = (if fetchesInFlight s = [] then s else fetchError message s)"
| "step s (Upvote oid) = upvote oid s"
| "step s (Downvote oid) = downvote oid s"
| "step s (UpdateVoteError oid change) =
     (if (oid, change) \<in> set (updateVoteCalls s) then updateVoteError oid change s else s)"

definition run :: "OffersStore \<Rightarrow> Event list \<Rightarrow> OffersStore" where
  "run s events = foldl step s events"

section \<open>The data source (offers-api.service.ts)\<close>

text \<open>
  The service keeps the last fetched fixture (\<^verbatim>\<open>null\<close> before the first fetch) and a
  cache of vote totals. \<^verbatim>\<open>updateVote\<close> returns an observable that emits the new total
  after a delay and never fails; the model returns the emitted total and the service
  after the call.
\<close>

record OffersApiService =
  allOffers :: "Offer list option"
  votesCache :: "string \<rightharpoonup> number"

definition updateVote :: "string \<Rightarrow> int \<Rightarrow> OffersApiService \<Rightarrow> number \<times> OffersApiService" where
  "updateVote oid voteChange api =
     (let currentVotes =
            (case votesCache api oid of
               Some cached \<Rightarrow> cached
             | None \<Rightarrow>
                 (case allOffers api of
                    None \<Rightarrow> Finite 0
                  | Some fetched \<Rightarrow>
                      (case find (\<lambda>offer. id' offer = oid) fetched of
                         None \<Rightarrow> Finite 0
                       | Some found \<Rightarrow> Finite (votes found))));
          newVotes = numberAdd currentVotes voteChange
      in (newVotes, api\<lparr>votesCache := (votesCache api)(oid \<mapsto> newVotes)\<rparr>))"

text \<open>
  The total the data source knows for an id, in the words of the interface contract: the
  total of its last vote update for the id, else the votes of the fetched offer with the
  id; an id with neither is unknown.
\<close>

definition lastKnownTotal :: "OffersApiService \<Rightarrow> string \<Rightarrow> number option" where
  "lastKnownTotal api oid =
     (case votesCache api oid of
        Some cached \<Rightarrow> Some cached
      | None \<Rightarrow>
          (case allOffers api of
             None \<Rightarrow> None
           | Some fetched \<Rightarrow>
               map_option (\<lambda>offer. Finite (votes offer)) (find (\<lambda>offer. id' offer = oid) fetched)))"

section \<open>Example states and the vocabulary of the properties\<close>

text \<open>
  The offer and the page response of the store's test suite, and the store of that suite
  once its first page has arrived, for a given list of loaded votes.
\<close>

definition mockOffer :: Offer where
  "mockOffer =
     \<lparr>id' = ''test-1'', title = ''Test Offer'', description = ''Test description'',
      price = 100, currency = ''USD'', imageUrl = ''test.jpg'', votes = 10,
      category = ''Electronics'', seller = ''Test Seller'', condition = New, createdAt = 0\<rparr>"

definition mockResponse :: OffersPageResponse where
  "mockResponse = \<lparr>r_offers = [mockOffer], r_total = 1, r_page = 0, r_pageSize = 10, r_hasMore = False\<rparr>"

definition loadedStore :: "UserVote list \<Rightarrow> OffersStore" where
  "loadedStore loaded = fetchNext mockResponse (initialStore loaded None)"

text \<open>
  The same store with an offer whose tally is \<open>2 ^ 53\<close>, the first integer whose
  successor no double holds.
\<close>

definition bigOffer :: Offer where
  "bigOffer = mockOffer\<lparr>votes := 9007199254740992\<rparr>"

definition bigStore :: OffersStore where
  "bigStore = fetchNext (mockResponse\<lparr>r_offers := [bigOffer]\<rparr>) (initialStore [] None)"

text \<open>The store whose first page fetch has failed.\<close>

definition firstPageFailed :: OffersStore where
  "firstPageFailed = fetchError ''Network error'' (initialStore [] None)"

text \<open>
  The tallies after a change \<open>delta\<close> on \<open>oid\<close>, offer by offer: an offer with the id
  has its tally moved by \<open>delta\<close> when the moved tally is a safe integer, and the tally
  of any other offer is the same.
\<close>

definition tallyMoved :: "string \<Rightarrow> int \<Rightarrow> OffersStore \<Rightarrow> OffersStore \<Rightarrow> bool" where
  "tallyMoved oid delta s s' \<longleftrightarrow>
     list_all2 (\<lambda>before after.
         if id' before = oid
         then isSafeInteger (votes before + delta) \<longrightarrow> votes after = votes before + delta
         else votes after = votes before)
       (accumulatedOffers s) (accumulatedOffers s')"

text \<open>
  A row of the toggle table, read between the state \<open>s\<close> before a vote on \<open>oid\<close> and
  the state \<open>s'\<close> after it: the recorded vote is \<open>vote\<close> (0 for none), the tallies
  have moved by \<open>delta\<close>, and the data source was sent \<open>delta\<close>.
\<close>

definition tableRow :: "string \<Rightarrow> OffersStore \<Rightarrow> OffersStore \<Rightarrow> int \<Rightarrow> int \<Rightarrow> bool" where
  "tableRow oid s s' vote delta \<longleftrightarrow>
     getUserVote oid s' = vote
     \<and> tallyMoved oid delta s s'
     \<and> updateVoteCalls s' = updateVoteCalls s @ [(oid, delta)]"

text \<open>
  The rollback of a change \<open>d\<close> on \<open>oid\<close>, read between the state \<open>s\<close> before the
  vote and the state \<open>s'\<close> after the failure: offer by offer, the offer is as before,
  provided that, when it has the id, its tally and its tally moved by \<open>d\<close> are safe
  integers.
\<close>

definition rolledBack :: "string \<Rightarrow> int \<Rightarrow> OffersStore \<Rightarrow> OffersStore \<Rightarrow> bool" where
  "rolledBack oid d s s' \<longleftrightarrow>
     list_all2 (\<lambda>before after.
         (id' before = oid \<longrightarrow> isSafeInteger (votes before) \<and> isSafeInteger (votes before + d))
         \<longrightarrow> after = before)
       (accumulatedOffers s) (accumulatedOffers s')"

text \<open>
  What a vote on \<open>oid\<close> may change: offer by offer, an offer with another id is the
  same, and an offer differs from its old value in \<^verbatim>\<open>votes\<close> at most; the cursor and
  the two resource signals are the same.
\<close>

definition onlyVotesOf :: "string \<Rightarrow> OffersStore \<Rightarrow> OffersStore \<Rightarrow> bool" where
  "onlyVotesOf oid s s' \<longleftrightarrow>
     list_all2 (\<lambda>before after. (id' before \<noteq> oid \<longrightarrow> after = before) \<and>
                               after\<lparr>votes := votes before\<rparr> = before)
       (accumulatedOffers s) (accumulatedOffers s')
     \<and> currentPage s' = currentPage s \<and> loading s' = loading s \<and> error s' = error s"

text \<open>
  The pages in flight agree with the resource: the page of the cursor while it loads,
  none otherwise.
\<close>

definition oneFetch :: "OffersStore \<Rightarrow> bool" where
  "oneFetch s \<longleftrightarrow> fetchesInFlight s = (if loading s then [currentPage s] else [])"

text \<open>A parse result that is not out of fuel and, when it is a value, has used up text.\<close>

definition consumes :: "'a parsed \<Rightarrow> string \<Rightarrow> bool" where
  "consumes p s \<longleftrightarrow> (case p of Parsed v rest \<Rightarrow> length rest < length s | Invalid \<Rightarrow> True | Exhausted \<Rightarrow> False)"

section \<open>Properties of the numbers\<close>

lemma bitLength_zero: "bitLength 0 = 0"
  by (subst bitLength.simps) simp

lemma bitLength_pos: "0 < n \<Longrightarrow> bitLength n = Suc (bitLength (n div 2))"
  by (subst bitLength.simps) simp

lemma bitLength_bounds: "0 < m \<Longrightarrow> 2 ^ (bitLength m - 1) \<le> m \<and> m < 2 ^ bitLength m"
proof (induction m rule: less_induct)
  case (less n)
  have eq: "bitLength n = Suc (bitLength (n div 2))"
    using less.prems by (rule bitLength_pos)
  show ?case
  proof (cases "n div 2 = 0")
    case True
    with less.prems have "n = 1"
      by (simp add: div_eq_0_iff)
    moreover have "bitLength n = Suc 0"
      using eq True by (simp add: bitLength_zero)
    ultimately show ?thesis
      by simp
  next
    case False
    then have half: "0 < n div 2" "n div 2 < n"
      using less.prems by simp_all
    have ih1: "2 ^ (bitLength (n div 2) - 1) \<le> n div 2"
      and ih2: "n div 2 < 2 ^ bitLength (n div 2)"
      using less.IH [OF half(2) half(1)] by blast+
    obtain j where j: "bitLength (n div 2) = Suc j"
      using bitLength_pos [OF half(1)] by blast
    have "2 * 2 ^ j \<le> 2 * (n div 2)"
      using ih1 by (simp add: j)
    also have "\<dots> \<le> n"
      by simp
    finally have lower: "2 ^ Suc j \<le> n"
      by simp
    have "Suc (n div 2) \<le> 2 ^ Suc j"
      using ih2 by (simp add: j)
    then have "2 * Suc (n div 2) \<le> 2 * 2 ^ Suc j"
      by (rule mult_le_mono2)
    moreover have "n < 2 * Suc (n div 2)"
      by presburger
    ultimately have upper: "n < 2 ^ Suc (Suc j)"
      by simp
    show ?thesis
      using lower upper by (simp add: eq j)
  qed
qed

lemma bitLength_eqI:
  assumes "2 ^ k \<le> m" and "m < 2 ^ Suc k"
  shows "bitLength m = Suc k"
proof -
  have pos: "0 < m"
    using assms(1) by (cases "m = 0") simp_all
  have b1: "2 ^ (bitLength m - 1) \<le> m" and b2: "m < 2 ^ bitLength m"
    using bitLength_bounds [OF pos] by blast+
  have "(2::nat) ^ k < 2 ^ bitLength m"
    using assms(1) b2 by (rule le_less_trans)
  then have lower: "k < bitLength m"
    by (rule power_less_imp_less_exp [rotated]) simp
  have "(2::nat) ^ (bitLength m - 1) < 2 ^ Suc k"
    using b1 assms(2) by (rule le_less_trans)
  then have "bitLength m - 1 < Suc k"
    by (rule power_less_imp_less_exp [rotated]) simp
  with lower show ?thesis
    by linarith
qed

lemma roundNat_exact: "m \<le> 2 ^ 53 \<Longrightarrow> roundNat m = m"
proof (cases "m < 2 ^ 53")
  case True
  then show ?thesis by (simp add: roundNat_def)
next
  case False
  assume "m \<le> 2 ^ 53"
  with False have m: "m = 2 ^ 53" by simp
  have "bitLength (2 ^ 53) = Suc 53"
    by (rule bitLength_eqI) simp_all
  then show ?thesis
    unfolding m roundNat_def Let_def by simp
qed

lemma roundDouble_exact: "\<bar>n\<bar> \<le> 2 ^ 53 \<Longrightarrow> roundDouble n = n"
  by (auto simp: roundDouble_def roundNat_exact nat_le_iff)

lemma jsAdd_safe: "isSafeInteger (a + b) \<Longrightarrow> jsAdd a b = a + b"
  by (simp add: jsAdd_def isSafeInteger_def roundDouble_exact)

lemma jsSub_safe: "isSafeInteger (a - b) \<Longrightarrow> jsSub a b = a - b"
  by (simp add: jsSub_def isSafeInteger_def roundDouble_exact)

lemma roundNat_above: "roundNat 9007199254740993 = 9007199254740992"
proof -
  have "bitLength 9007199254740993 = Suc 53"
    by (rule bitLength_eqI) simp_all
  then show ?thesis
    unfolding roundNat_def Let_def by simp
qed

lemma jsAdd_above: "jsAdd 9007199254740992 1 = 9007199254740992"
  by (simp add: jsAdd_def roundDouble_def roundNat_above)

lemma jsSub_above: "jsSub 9007199254740992 1 = 9007199254740991"
  by (simp add: jsSub_safe isSafeInteger_def)

lemma toNumber_safe: "isSafeInteger r \<Longrightarrow> toNumber r = Finite r"
proof -
  assume "isSafeInteger r"
  then have "\<bar>r\<bar> < 2 ^ 53"
    by (simp add: isSafeInteger_def)
  moreover have "(2::int) ^ 53 \<le> 2 ^ 1024"
    by (rule power_increasing) simp_all
  ultimately have "\<bar>r\<bar> < 2 ^ 1024"
    by (rule less_le_trans)
  then show ?thesis
    by (simp add: toNumber_def abs_less_iff)
qed

lemma numberAdd_safe: "isSafeInteger (a + b) \<Longrightarrow> numberAdd (Finite a) b = Finite (a + b)"
  by (simp add: numberAdd_def jsAdd_safe toNumber_safe)

text \<open>
  The largest double is \<open>2 ^ 1024 - 2 ^ 971\<close>. Adding or subtracting 1 or 2 from a tally of at
  most that magnitude gives a finite double again, so the store's tallies need no infinity.
\<close>

lemma bitLength_le: "m < 2 ^ k \<Longrightarrow> bitLength m \<le> k"
proof (cases "m = 0")
  case True
  then show ?thesis by (simp add: bitLength_zero)
next
  case False
  assume a: "m < 2 ^ k"
  have "2 ^ (bitLength m - 1) \<le> m"
    using False bitLength_bounds by blast
  then have "(2::nat) ^ (bitLength m - 1) < 2 ^ k"
    using a by (rule le_less_trans)
  then have "bitLength m - 1 < k"
    by (rule power_less_imp_less_exp [rotated]) simp
  then show ?thesis
    by linarith
qed

lemma bitLength_ge: "2 ^ k \<le> m \<Longrightarrow> k < bitLength m"
proof -
  assume a: "2 ^ k \<le> m"
  then have "0 < m"
    by (cases "m = 0") simp_all
  then have "m < 2 ^ bitLength m"
    using bitLength_bounds by blast
  with a have "(2::nat) ^ k < 2 ^ bitLength m"
    by (rule le_less_trans)
  then show ?thesis
    by (rule power_less_imp_less_exp [rotated]) simp
qed

lemma roundNat_finite:
  assumes "m + 2 ^ 970 < 2 ^ 1024"
  shows "roundNat m < 2 ^ 1024"
proof (cases "m < 2 ^ 53")
  case True
  then have "roundNat m < 2 ^ 53"
    by (simp add: roundNat_def)
  moreover have "(2::nat) ^ 53 \<le> 2 ^ 1024"
    by (rule power_increasing) simp_all
  ultimately show ?thesis
    by (rule less_le_trans)
next
  case False
  define shift where "shift = bitLength m - 53"
  define q where "q = m div 2 ^ shift"
  define r where "r = m mod 2 ^ shift"
  have m: "m = q * 2 ^ shift + r"
    unfolding q_def r_def by (rule div_mult_mod_eq [symmetric])
  have "m < 2 ^ 1024"
    using assms by simp
  then have le: "bitLength m \<le> 1024"
    by (rule bitLength_le)
  have gt: "53 < bitLength m"
    using False by (intro bitLength_ge) simp
  have bl: "bitLength m = 53 + shift"
    using gt by (simp add: shift_def)
  have "m < 2 ^ bitLength m"
    using gt bitLength_bounds [of m] by (cases "m = 0") (simp_all add: bitLength_zero)
  then have "m < 2 ^ 53 * 2 ^ shift"
    by (simp add: bl power_add)
  then have q: "q < 2 ^ 53"
    unfolding q_def by (rule less_mult_imp_div_less)
  have rounded: "roundNat m =
      (if 2 ^ (shift - 1) < r \<or> (r = 2 ^ (shift - 1) \<and> odd q) then q + 1 else q) * 2 ^ shift"
    using False by (simp add: roundNat_def Let_def shift_def q_def r_def)
  show ?thesis
  proof (cases "q + 1 < 2 ^ 53")
    case True
    have "roundNat m \<le> (q + 1) * 2 ^ shift"
      by (simp add: rounded)
    also have "\<dots> < 2 ^ 53 * 2 ^ shift"
      using True by simp
    also have "\<dots> = 2 ^ bitLength m"
      by (simp add: bl power_add)
    also have "\<dots> \<le> 2 ^ 1024"
      using le by (intro power_increasing) simp_all
    finally show ?thesis .
  next
    case top: False
    show ?thesis
    proof (cases "bitLength m = 1024")
      case False
      then have "bitLength m \<le> 1023"
        using le by simp
      have "roundNat m \<le> (q + 1) * 2 ^ shift"
        by (simp add: rounded)
      also have "\<dots> \<le> 2 ^ 53 * 2 ^ shift"
        using q by simp
      also have "\<dots> = 2 ^ bitLength m"
        by (simp add: bl power_add)
      also have "\<dots> \<le> 2 ^ 1023"
        using \<open>bitLength m \<le> 1023\<close> by (intro power_increasing) simp_all
      also have "\<dots> < (2::nat) ^ 1024"
        by simp
      finally show ?thesis .
    next
      case True
      then have shift: "shift = 971"
        by (simp add: shift_def)
      have qtop: "q + 1 = 2 ^ 53"
        using q top by simp
      define P where "P = (2::nat) ^ 970"
      have p1: "(2::nat) ^ shift = 2 * P"
        by (simp add: shift P_def)
      have p2: "(2::nat) ^ 1024 = (q + 1) * (2 * P)"
        unfolding qtop P_def by simp
      have "m + P < 2 ^ 1024"
        using assms by (simp only: P_def)
      then have "m + P < (q + 1) * (2 * P)"
        by (simp only: p2)
      moreover have "m = q * (2 * P) + r"
        using m unfolding p1 .
      ultimately have "q * (2 * P) + r + P < q * (2 * P) + 2 * P"
        by (simp add: algebra_simps)
      then have "r < P"
        by simp
      then have small: "r < 2 ^ 970"
        by (simp add: P_def)
      have "roundNat m = q * 2 ^ shift"
        using small by (simp add: rounded shift)
      also have "\<dots> < 2 ^ 53 * 2 ^ shift"
        using q by simp
      also have "\<dots> = 2 ^ 1024"
        by (simp add: shift)
      finally show ?thesis .
    qed
  qed
qed

lemma roundDouble_finite:
  assumes "\<bar>n\<bar> + 2 ^ 970 < 2 ^ 1024"
  shows "\<bar>roundDouble n\<bar> < 2 ^ 1024"
proof -
  have "int (nat \<bar>n\<bar> + 2 ^ 970) < int (2 ^ 1024)"
    using assms by simp
  then have "nat \<bar>n\<bar> + 2 ^ 970 < 2 ^ 1024"
    by (simp only: of_nat_less_iff)
  then have "roundNat (nat \<bar>n\<bar>) < 2 ^ 1024"
    by (rule roundNat_finite)
  then have "int (roundNat (nat \<bar>n\<bar>)) < int (2 ^ 1024)"
    by (simp only: of_nat_less_iff)
  then have "int (roundNat (nat \<bar>n\<bar>)) < 2 ^ 1024"
    by simp
  moreover have "\<bar>roundDouble n\<bar> = int (roundNat (nat \<bar>n\<bar>))"
    by (simp add: roundDouble_def)
  ultimately show ?thesis
    by simp
qed

lemma jsAdd_finite:
  assumes "\<bar>v\<bar> + 2 ^ 971 \<le> 2 ^ 1024" and "\<bar>c\<bar> \<le> 2"
  shows "\<bar>jsAdd v c\<bar> < 2 ^ 1024"
proof -
  have "\<bar>v + c\<bar> + 2 ^ 970 < 2 ^ 1024"
    using assms by simp
  then show ?thesis
    unfolding jsAdd_def by (rule roundDouble_finite)
qed

lemma jsSub_finite:
  assumes "\<bar>v\<bar> + 2 ^ 971 \<le> 2 ^ 1024" and "\<bar>c\<bar> \<le> 2"
  shows "\<bar>jsSub v c\<bar> < 2 ^ 1024"
proof -
  have "\<bar>v - c\<bar> + 2 ^ 970 < 2 ^ 1024"
    using assms by simp
  then show ?thesis
    unfolding jsSub_def by (rule roundDouble_finite)
qed

section \<open>Properties of the JSON functions\<close>

subsection \<open>Parsing what \<^verbatim>\<open>JSON.stringify\<close> wrote\<close>

lemma hexValue_hexDigit: "k < 16 \<Longrightarrow> hexValue (hexDigit k) = Some k"
  by (simp add: hexValue_def hexDigit_def Let_def)

lemma hex4_control:
  assumes "n < 32"
  shows "hex4 (CHR ''0'') (CHR ''0'') (hexDigit (n div 16)) (hexDigit (n mod 16)) = Some n"
proof -
  have "hexValue (CHR ''0'') = Some 0"
    by (simp add: hexValue_def)
  moreover have "hexValue (hexDigit (n div 16)) = Some (n div 16)"
    using assms by (intro hexValue_hexDigit) simp
  moreover have "hexValue (hexDigit (n mod 16)) = Some (n mod 16)"
    by (intro hexValue_hexDigit) simp
  ultimately show ?thesis
    by (simp add: hex4_def)
qed

lemma parseChars_quoteChar:
  "parseChars (quoteChar c @ t) = consUnit (of_char c) (parseChars t)"
proof -
  consider "c = CHR 0x22" | "c = CHR 0x5C" | "c = CHR 0x08" | "c = CHR 0x0C" | "c = CHR 0x0A"
    | "c = CHR 0x0D" | "c = CHR 0x09"
    | "c \<notin> {CHR 0x22, CHR 0x5C, CHR 0x08, CHR 0x0C, CHR 0x0A, CHR 0x0D, CHR 0x09}"
      "(of_char c :: nat) < 32"
    | "c \<notin> {CHR 0x22, CHR 0x5C, CHR 0x08, CHR 0x0C, CHR 0x0A, CHR 0x0D, CHR 0x09}"
      "\<not> (of_char c :: nat) < 32"
    by blast
  then show ?thesis
  proof cases
    case 8
    then show ?thesis
      by (simp add: quoteChar_def hex4_control)
  next
    case 9
    then show ?thesis
      by (simp add: quoteChar_def)
  qed (simp_all add: quoteChar_def escapeValue_def)
qed

lemma parseChars_quoted:
  "parseChars (concat (map quoteChar s) @ CHR 0x22 # rest) = Some (unitsOf s, rest)"
  by (induction s) (simp_all add: parseChars_quoteChar consUnit_def unitsOf_def)

lemma skipWhitespace_keep: "\<not> isWhitespace c \<Longrightarrow> skipWhitespace (c # cs) = c # cs"
  by (simp add: skipWhitespace_def)

lemma parseValue_string:
  "parseValue (Suc n) (quoteJSONString s @ rest) = Parsed (JString (unitsOf s)) rest"
  by (simp add: quoteJSONString_def parseChars_quoted)

lemma parseNumber_voteType:
  "parseNumber (stringifyVoteType vt @ CHR ''}'' # rest) =
     Some (of_int (voteNumber vt), CHR ''}'' # rest)"
  by (cases vt)
     (simp_all add: parseNumber_def parseSign_def parseInt_def parseFraction_def
       parseExponent_def numberValue_def isDigit_def digitsValue_def)

lemma parseValue_voteType:
  "parseValue (Suc n) (stringifyVoteType vt @ CHR ''}'' # rest) =
     Parsed (JNumber (of_int (voteNumber vt))) (CHR ''}'' # rest)"
  using parseNumber_voteType [of vt rest]
  by (cases vt) simp_all

lemma parseMembers_voteType:
  "parseMembers (Suc (Suc n)) (quoteJSONString ''voteType'' @ '':'' @ stringifyVoteType vt @ CHR ''}'' # rest) =
     Parsed [(unitsOf ''voteType'', JNumber (of_int (voteNumber vt)))] rest"
proof -
  have key: "parseChars (concat (map quoteChar ''voteType'') @ CHR 0x22 # t) = Some (unitsOf ''voteType'', t)" for t
    by (rule parseChars_quoted)
  have start: "skipWhitespace (stringifyVoteType vt @ CHR ''}'' # rest) = stringifyVoteType vt @ CHR ''}'' # rest"
    by (cases vt) (simp_all add: skipWhitespace_def isWhitespace_def)
  show ?thesis
    using key [of "'':'' @ stringifyVoteType vt @ CHR ''}'' # rest"]
    by (simp add: quoteJSONString_def skipWhitespace_keep isWhitespace_def start
        parseValue_voteType del: parseValue.simps)
qed

lemma parseValue_userVote:
  "parseValue (Suc (Suc (Suc (Suc n)))) (stringifyUserVote v @ rest) = Parsed (voteJson v) rest"
proof -
  have key: "parseChars (concat (map quoteChar ''offerId'') @ CHR 0x22 # t) = Some (unitsOf ''offerId'', t)" for t
    by (rule parseChars_quoted)
  have quoted: "skipWhitespace (quoteJSONString s @ t) = quoteJSONString s @ t" for s t
    by (simp add: quoteJSONString_def skipWhitespace_def isWhitespace_def)
  have members:
    "parseMembers (Suc (Suc (Suc n)))
       (quoteJSONString ''offerId'' @ '':'' @ quoteJSONString (offerId v) @ '','' @
        quoteJSONString ''voteType'' @ '':'' @ stringifyVoteType (voteType v) @ CHR ''}'' # rest) =
     Parsed [(unitsOf ''offerId'', JString (unitsOf (offerId v))),
             (unitsOf ''voteType'', JNumber (of_int (voteNumber (voteType v))))] rest"
    using key [of "'':'' @ quoteJSONString (offerId v) @ '','' @
        quoteJSONString ''voteType'' @ '':'' @ stringifyVoteType (voteType v) @ CHR ''}'' # rest"]
      parseMembers_voteType [of n "voteType v" rest]
      parseValue_string [of "Suc n" "offerId v"]
    apply (subst parseMembers.simps)
    apply (subst (1) quoteJSONString_def)
    apply (simp add: skipWhitespace_keep isWhitespace_def quoted
        del: parseValue.simps parseMembers.simps)
    done
  have first: "quoteJSONString ''offerId'' @ t = CHR 0x22 # tl (quoteJSONString ''offerId'' @ t)" for t
    by (simp add: quoteJSONString_def)
  show ?thesis
    unfolding stringifyUserVote_def voteJson_def
    apply (subst parseValue.simps)
    apply (simp add: quoted del: parseValue.simps parseMembers.simps)
    apply (subst first)
    apply (simp del: parseValue.simps parseMembers.simps)
    apply (subst first [symmetric])
    using members apply (simp del: parseValue.simps parseMembers.simps)
    done
qed

lemma stringifyUserVote_first:
  "stringifyUserVote v = CHR ''{'' # tl (stringifyUserVote v)"
  by (simp add: stringifyUserVote_def)

lemma skipWhitespace_userVote:
  "skipWhitespace (stringifyUserVote v @ t) = stringifyUserVote v @ t"
  by (subst (1 2) stringifyUserVote_first) (simp add: skipWhitespace_def isWhitespace_def)

lemma parseElements_userVotes:
  "length vs + 4 \<le> n \<Longrightarrow>
   parseElements (Suc n) (joinComma (map stringifyUserVote (v # vs)) @ CHR '']'' # rest) =
     Parsed (map voteJson (v # vs)) rest"
proof (induction vs arbitrary: v n)
  case Nil
  then have "4 \<le> n"
    by simp
  then obtain m where "n = 4 + m"
    using le_Suc_ex by blast
  then have "n = Suc (Suc (Suc (Suc m)))"
    by simp
  then show ?case
    by (simp add: parseValue_userVote skipWhitespace_def isWhitespace_def
        del: parseValue.simps)
next
  case (Cons w ws)
  then have "5 + length ws \<le> n"
    by simp
  then obtain m where "n = (5 + length ws) + m"
    using le_Suc_ex by blast
  then have n: "n = Suc (Suc (Suc (Suc (Suc (length ws + m)))))"
    by simp
  have rec: "parseElements (Suc (Suc (Suc (Suc (Suc (length ws + m))))))
       (joinComma (map stringifyUserVote (w # ws)) @ CHR '']'' # rest) =
     Parsed (map voteJson (w # ws)) rest"
    using Cons.IH [of "Suc (Suc (Suc (Suc (length ws + m))))" w] by simp
  have skip: "skipWhitespace (joinComma (map stringifyUserVote (w # ws)) @ t) =
      joinComma (map stringifyUserVote (w # ws)) @ t" for t
    using skipWhitespace_userVote [of w] by (cases ws) simp_all
  show ?case
    unfolding n
    apply (subst parseElements.simps)
    apply (simp add: parseValue_userVote skipWhitespace_keep isWhitespace_def
        del: parseValue.simps parseElements.simps)
    using rec skip apply (simp del: parseValue.simps parseElements.simps)
    done
qed

lemma length_stringifyUserVote: "3 \<le> length (stringifyUserVote v)"
  by (simp add: stringifyUserVote_def quoteJSONString_def)

lemma length_joinComma: "3 * length vs \<le> length (joinComma (map stringifyUserVote vs))"
proof (induction vs rule: induct_list012)
  case (2 v)
  then show ?case using length_stringifyUserVote [of v] by simp
next
  case (3 v w ws)
  then show ?case using length_stringifyUserVote [of v] by simp
qed simp

lemma JSON_parse_stringify:
  "JSON_parse (JSON_stringify vs) = Value (JArray (map voteJson vs))"
proof (cases vs)
  case Nil
  then show ?thesis
    by (simp add: JSON_parse_def JSON_stringify_def skipWhitespace_def isWhitespace_def
        eval_nat_numeral)
next
  case (Cons v ws)
  define body where "body = joinComma (map stringifyUserVote (v # ws))"
  obtain t where t: "stringifyUserVote v = CHR ''{'' # t"
    by (simp add: stringifyUserVote_def)
  obtain u where u: "body @ '']'' = CHR ''{'' # u"
    unfolding body_def using t by (cases ws) simp_all
  have lu: "length u = length body"
    using arg_cong [OF u, of length] by simp
  define fuel where "fuel = 2 * length body + 1"
  have "2 * length (''['' @ body @ '']'') + 1 = Suc (Suc (Suc (Suc fuel)))"
    by (simp add: fuel_def)
  moreover have "parseValue (Suc (Suc (Suc (Suc fuel)))) (CHR ''['' # CHR ''{'' # u) =
      Parsed (JArray (map voteJson (v # ws))) []"
  proof -
    have "length ws + 4 \<le> Suc (Suc fuel)"
      using length_joinComma [of "v # ws"] by (simp add: body_def fuel_def)
    then have "parseElements (Suc (Suc (Suc fuel))) (body @ '']'') = Parsed (map voteJson (v # ws)) []"
      unfolding body_def using parseElements_userVotes [of ws "Suc (Suc fuel)" v "[]"]
      by simp
    then have "parseElements (Suc (Suc (Suc fuel))) (CHR ''{'' # u) = Parsed (map voteJson (v # ws)) []"
      by (simp only: u)
    then show ?thesis
      by (simp add: skipWhitespace_keep isWhitespace_def del: parseElements.simps)
  qed
  ultimately have "JSON_parse (''['' @ body @ '']'') = Value (JArray (map voteJson (v # ws)))"
    unfolding JSON_parse_def
    apply (simp only: append_Cons append_Nil u)
    apply (simp add: skipWhitespace_def isWhitespace_def del: parseValue.simps parseElements.simps)
    done
  then show ?thesis
    by (simp add: Cons JSON_stringify_def body_def)
qed

lemma stringOf_unitsOf: "stringOf (unitsOf s) = Some s"
  by (simp add: stringOf_def unitsOf_def list_all_iff o_def map_idI)

lemma decodeUserVote_voteJson: "decodeUserVote (voteJson v) = Some v"
proof -
  have "unitsOf ''voteType'' \<noteq> unitsOf ''offerId''"
    by (simp add: unitsOf_def)
  then show ?thesis
    by (cases "voteType v")
       (simp_all add: decodeUserVote_def voteJson_def memberValue_def stringOf_unitsOf
         decodeVoteType_def)
qed

lemma decodeUserVotes_voteJson: "decodeUserVotes (JArray (map voteJson vs)) = Some vs"
  by (induction vs) (simp_all add: decodeUserVotes_def decodeUserVote_voteJson)

subsection \<open>The fuel is enough\<close>

lemma skipWhitespace_length: "length (skipWhitespace s) \<le> length s"
  by (simp add: skipWhitespace_def length_dropWhile_le)

lemma skipWhitespace_Cons_length: "skipWhitespace s = c # cs \<Longrightarrow> length cs < length s"
  using skipWhitespace_length [of s] by simp

lemma consUnit_Some:
  "consUnit n r = Some (units, rest) \<Longrightarrow> \<exists>us. r = Some (us, rest)"
  by (auto simp: consUnit_def split: option.splits)

lemma parseChars_length: "parseChars s = Some (units, rest) \<Longrightarrow> length rest < length s"
proof (induction s arbitrary: units rule: parseChars.induct)
  case 1
  then show ?case by simp
next
  case (2 c cs)
  show ?case
  proof (cases "c = CHR 0x22")
    case True
    with "2.prems" show ?thesis by simp
  next
    case quote: False
    show ?thesis
    proof (cases "c = CHR 0x5C")
      case False
      with quote "2.prems" obtain us where "parseChars cs = Some (us, rest)"
        by (auto split: if_splits dest: consUnit_Some)
      with "2.IH"(3) [OF quote False] "2.prems" quote False show ?thesis
        by (auto split: if_splits)
    next
      case True
      with quote "2.prems" obtain e es where cs: "cs = e # es"
        by (cases cs) auto
      show ?thesis
      proof (cases "e = CHR ''u''")
        case False
        with True quote cs "2.prems" obtain n us where "escapeValue e = Some n" "parseChars es = Some (us, rest)"
          by (auto split: option.splits dest: consUnit_Some)
        with "2.IH"(2) [OF quote True cs False] show ?thesis
          by (simp add: cs) (meson less_SucI)
      next
        case u: True
        with True quote cs "2.prems" obtain h3 h2 h1 h0 r n us
          where es: "es = h3 # h2 # h1 # h0 # r" and "hex4 h3 h2 h1 h0 = Some n"
            and "parseChars r = Some (us, rest)"
          by (auto split: option.splits list.splits dest: consUnit_Some)
        with "2.IH"(1) [OF quote True cs u] show ?thesis
          by (simp add: cs es) (meson less_SucI)
      qed
    qed
  qed
qed

lemma parseNumber_length: "parseNumber s = Some (q, rest) \<Longrightarrow> length rest < length s"
proof -
  assume p: "parseNumber s = Some (q, rest)"
  have sign: "length (snd (parseSign s)) \<le> length s"
    by (auto simp: parseSign_def split: list.splits)
  have whole: "parseInt t = Some (w, r) \<Longrightarrow> length r < length t" for t w r
    by (auto simp: parseInt_def split: list.splits if_splits
        intro: le_imp_less_Suc length_dropWhile_le)
  have fraction: "parseFraction t = Some (f, r) \<Longrightarrow> length r \<le> length t" for t f r
    by (auto simp: parseFraction_def split: list.splits if_splits
        intro: le_SucI length_dropWhile_le)
  have digits: "parseExponentDigits sg t = Some (e, r) \<Longrightarrow> length r \<le> length t" for sg t e r
    by (auto simp: parseExponentDigits_def split: if_splits intro: length_dropWhile_le)
  have exponent: "parseExponent t = Some (e, r) \<Longrightarrow> length r \<le> length t" for t e r
    by (auto simp: parseExponent_def split: list.splits if_splits dest!: digits)
  from p obtain neg s1 w s2 f s3 e where
    "parseSign s = (neg, s1)" "parseInt s1 = Some (w, s2)" "parseFraction s2 = Some (f, s3)"
    "parseExponent s3 = Some (e, rest)"
    by (auto simp: parseNumber_def split: prod.splits option.splits)
  then show ?thesis
    using sign whole [of s1 w s2] fraction [of s2 f s3] exponent [of s3 e rest] by simp
qed

lemma consumes_simps [simp]:
  "consumes (Parsed v rest) s \<longleftrightarrow> length rest < length s"
  "consumes Invalid s"
  "\<not> consumes Exhausted s"
  by (simp_all add: consumes_def)

lemma consumes_mono: "consumes p t \<Longrightarrow> length t \<le> length s \<Longrightarrow> consumes p s"
  by (cases p) simp_all

lemma parse_step:
  assumes V: "\<And>s. 2 * length s + 1 \<le> n \<Longrightarrow> consumes (parseValue n s) s"
    and E: "\<And>s. 2 * length s + 2 \<le> n \<Longrightarrow> consumes (parseElements n s) s"
    and M: "\<And>s. 2 * length s + 2 \<le> n \<Longrightarrow> consumes (parseMembers n s) s"
  shows "2 * length s + 1 \<le> Suc n \<Longrightarrow> consumes (parseValue (Suc n) s) s"
    and "2 * length s + 2 \<le> Suc n \<Longrightarrow> consumes (parseElements (Suc n) s) s"
    and "2 * length s + 2 \<le> Suc n \<Longrightarrow> consumes (parseMembers (Suc n) s) s"
proof -
  show "consumes (parseValue (Suc n) s) s" if fuel: "2 * length s + 1 \<le> Suc n"
  proof (cases s)
    case Nil
    then show ?thesis by simp
  next
    case (Cons c cs)
    have nested: "consumes (case p of Parsed x rest \<Rightarrow> Parsed (f x) rest | Invalid \<Rightarrow> Invalid
                              | Exhausted \<Rightarrow> Exhausted) s"
      if "consumes p t" "length t < length s" for p :: "'b parsed" and f :: "'b \<Rightarrow> json" and t
      using that by (cases p) simp_all
    have inner: "2 * length t + 2 \<le> n" if "length t \<le> length cs" for t
      using fuel that by (simp add: Cons)
    show ?thesis
    proof (cases "skipWhitespace cs")
      case Nil
      then show ?thesis
        using parseChars_length [of cs] parseNumber_length [of s]
        by (auto simp: Cons split: option.splits)
    next
      case (Cons d ds)
      have len: "length (d # ds) \<le> length cs"
        using skipWhitespace_length [of cs] by (simp add: Cons)
      have members: "consumes (case parseMembers n (d # ds) of
            Parsed members rest \<Rightarrow> Parsed (JObject members) rest
          | Invalid \<Rightarrow> Invalid | Exhausted \<Rightarrow> Exhausted) s"
        using M [OF inner [OF len]] len by (intro nested [of _ "d # ds"]) (simp_all add: \<open>s = c # cs\<close>)
      have elements: "consumes (case parseElements n (d # ds) of
            Parsed elements rest \<Rightarrow> Parsed (JArray elements) rest
          | Invalid \<Rightarrow> Invalid | Exhausted \<Rightarrow> Exhausted) s"
        using E [OF inner [OF len]] len by (intro nested [of _ "d # ds"]) (simp_all add: \<open>s = c # cs\<close>)
      show ?thesis
        using parseChars_length [of cs] parseNumber_length [of s] members elements len
        by (auto simp: \<open>s = c # cs\<close> Cons split: option.splits)
    qed
  qed
  show "consumes (parseElements (Suc n) s) s" if fuel: "2 * length s + 2 \<le> Suc n"
  proof (cases "parseValue n s")
    case (Parsed v rest)
    have rest: "length rest < length s"
      using V [of s] fuel by (simp add: Parsed)
    show ?thesis
    proof (cases "skipWhitespace rest")
      case Nil
      then show ?thesis by (simp add: Parsed)
    next
      case (Cons c cs)
      have cs: "length cs < length rest"
        using Cons by (rule skipWhitespace_Cons_length)
      have "length (skipWhitespace cs) \<le> length cs"
        by (rule skipWhitespace_length)
      then have "2 * length (skipWhitespace cs) + 2 \<le> n" and "length (skipWhitespace cs) \<le> length s"
        using cs rest fuel by simp_all
      then have "consumes (parseElements n (skipWhitespace cs)) s"
        using E [of "skipWhitespace cs"] consumes_mono by blast
      then show ?thesis
        using cs rest by (cases "parseElements n (skipWhitespace cs)") (simp_all add: Parsed Cons)
    qed
  next
    case Invalid
    then show ?thesis by simp
  next
    case Exhausted
    then show ?thesis using V [of s] fuel by simp
  qed
  show "consumes (parseMembers (Suc n) s) s" if fuel: "2 * length s + 2 \<le> Suc n"
  proof (cases s)
    case Nil
    then show ?thesis by simp
  next
    case (Cons c cs)
    show ?thesis
    proof (cases "parseChars cs")
      case None
      then show ?thesis by (simp add: Cons)
    next
      case (Some key_rest)
      obtain key rest where kr: "key_rest = (key, rest)"
        by (cases key_rest)
      have rest: "length rest < length cs"
        using Some kr parseChars_length by simp
      show ?thesis
      proof (cases "skipWhitespace rest")
        case Nil
        then show ?thesis by (simp add: Cons Some kr)
      next
        case colon: (Cons d ds)
        have ds: "length ds < length rest"
          using colon by (rule skipWhitespace_Cons_length)
        define t where "t = skipWhitespace ds"
        have t: "length t \<le> length ds"
          unfolding t_def by (rule skipWhitespace_length)
        then have "2 * length t + 1 \<le> n"
          using ds rest fuel by (simp add: Cons)
        then have val: "consumes (parseValue n t) t"
          by (rule V)
        show ?thesis
        proof (cases "parseValue n t")
          case (Parsed v rest')
          have rest': "length rest' < length t"
            using val by (simp add: Parsed)
          show ?thesis
          proof (cases "skipWhitespace rest'")
            case Nil
            then show ?thesis
              by (simp add: Cons Some kr colon Parsed t_def [symmetric])
          next
            case comma: (Cons e es)
            have es: "length es < length rest'"
              using comma by (rule skipWhitespace_Cons_length)
            have "length (skipWhitespace es) \<le> length es"
              by (rule skipWhitespace_length)
            then have "2 * length (skipWhitespace es) + 2 \<le> n" and "length (skipWhitespace es) \<le> length s"
              using es rest' t ds rest fuel by (simp_all add: Cons)
            then have "consumes (parseMembers n (skipWhitespace es)) s"
              using M [of "skipWhitespace es"] consumes_mono by blast
            then show ?thesis
              using es rest' t ds rest
              by (cases "parseMembers n (skipWhitespace es)")
                 (simp_all add: Cons Some kr colon Parsed comma t_def [symmetric])
          qed
        next
          case Invalid
          then show ?thesis
            by (simp add: Cons Some kr colon t_def [symmetric])
        next
          case Exhausted
          then show ?thesis using val by simp
        qed
      qed
    qed
  qed
qed

lemma parse_total:
  "(2 * length s + 1 \<le> n \<longrightarrow> consumes (parseValue n s) s)
   \<and> (2 * length s + 2 \<le> n \<longrightarrow> consumes (parseElements n s) s)
   \<and> (2 * length s + 2 \<le> n \<longrightarrow> consumes (parseMembers n s) s)"
proof (induction n arbitrary: s)
  case 0
  then show ?case by simp
next
  case (Suc n)
  then show ?case
    using parse_step [of n s] by blast
qed

lemma JSON_parse_total: "JSON_parse text \<noteq> FuelExhausted"
proof -
  have "2 * length (skipWhitespace text) + 1 \<le> 2 * length text + 1"
    using skipWhitespace_length [of "text"] by simp
  then have "consumes (parseValue (2 * length text + 1) (skipWhitespace text)) (skipWhitespace text)"
    using parse_total by blast
  then show ?thesis
    by (cases "parseValue (2 * length text + 1) (skipWhitespace text)")
       (simp_all add: JSON_parse_def)
qed

section \<open>Properties of the store\<close>

subsection \<open>The sorted view\<close>

lemma insertBy_insort_key:
  "insertBy (\<lambda>a b. votes b - votes a) (x :: Offer) ys = insort_key (\<lambda>offer. - votes offer) x ys"
  by (induction ys) auto

lemma arraySort_sort_key:
  "arraySort (\<lambda>a b. votes b - votes a) (xs :: Offer list) = sort_key (\<lambda>offer. - votes offer) xs"
  unfolding arraySort_def sort_key_def
  by (induction xs) (simp_all add: insertBy_insort_key)

text \<open>
  The three properties of the next theorem leave one list only, so it does not matter
  which stable sort the platform runs.
\<close>

lemma stable_sort_unique:
  assumes "mset ys = mset (accumulatedOffers s)"
    and "sorted_wrt (\<lambda>a b. votes a \<ge> votes b) ys"
    and "\<And>v. filter (\<lambda>offer. votes offer = v) ys =
              filter (\<lambda>offer. votes offer = v) (accumulatedOffers s)"
  shows "ys = offers s"
proof -
  have "sorted (map (\<lambda>offer. - votes offer) ys)"
    using assms(2) by (simp add: sorted_map sorted_wrt_iff_nth_less)
  moreover have "filter (\<lambda>x. - votes k = - votes x) ys =
      filter (\<lambda>x. - votes k = - votes x) (accumulatedOffers s)" for k
    using assms(3) [of "votes k"] by (simp add: eq_commute)
  ultimately have "sort_key (\<lambda>offer. - votes offer) (accumulatedOffers s) = ys"
    using assms(1) by (intro properties_for_sort_key) simp_all
  then show ?thesis
    by (simp add: offers_def arraySort_sort_key)
qed

text \<open>
  Claim C3. In every state of the store, \<^verbatim>\<open>offers()\<close> holds the accumulated offers (the
  same offers, as often), ordered by votes from high to low, and the sort is stable: for
  every vote count, the offers with that count come in the order in which they were
  accumulated. The view is computed from the state alone, so this also holds after every
  vote.
\<close>

theorem offers_sorted_stable:
  "sorted_wrt (\<lambda>a b. votes a \<ge> votes b) (offers s) \<and>
   mset (offers s) = mset (accumulatedOffers s) \<and>
   (\<forall>v. filter (\<lambda>offer. votes offer = v) (offers s) =
        filter (\<lambda>offer. votes offer = v) (accumulatedOffers s))"
proof -
  have "sorted (map (\<lambda>offer. - votes offer) (offers s))"
    by (simp add: offers_def arraySort_sort_key)
  then have "sorted_wrt (\<lambda>a b. votes a \<ge> votes b) (offers s)"
    by (simp add: sorted_map sorted_wrt_iff_nth_less)
  moreover have "filter (\<lambda>offer. votes offer = v) (offers s) =
        filter (\<lambda>offer. votes offer = v) (accumulatedOffers s)" for v
    using sort_key_stable[of "\<lambda>offer. - votes offer" "- v" "accumulatedOffers s"]
    by (simp add: offers_def arraySort_sort_key)
  ultimately show ?thesis by (simp add: offers_def arraySort_sort_key)
qed

theorem offers_sorted_stable_witness:
  "map id' (offers ((loadedStore [])\<lparr>accumulatedOffers :=
      [mockOffer\<lparr>id' := ''offer-1'', votes := 5\<rparr>, mockOffer\<lparr>id' := ''offer-2'', votes := 15\<rparr>,
       mockOffer\<lparr>id' := ''offer-3'', votes := 5\<rparr>, mockOffer\<lparr>id' := ''offer-4'', votes := 10\<rparr>]\<rparr>)) =
     [''offer-2'', ''offer-4'', ''offer-1'', ''offer-3'']
   \<and> sorted_wrt (\<lambda>a b. votes a \<ge> votes b) (offers ((loadedStore [])\<lparr>accumulatedOffers :=
      [mockOffer\<lparr>id' := ''offer-1'', votes := 5\<rparr>, mockOffer\<lparr>id' := ''offer-2'', votes := 15\<rparr>,
       mockOffer\<lparr>id' := ''offer-3'', votes := 5\<rparr>, mockOffer\<lparr>id' := ''offer-4'', votes := 10\<rparr>]\<rparr>))"
  using offers_sorted_stable [of "(loadedStore [])\<lparr>accumulatedOffers :=
      [mockOffer\<lparr>id' := ''offer-1'', votes := 5\<rparr>, mockOffer\<lparr>id' := ''offer-2'', votes := 15\<rparr>,
       mockOffer\<lparr>id' := ''offer-3'', votes := 5\<rparr>, mockOffer\<lparr>id' := ''offer-4'', votes := 10\<rparr>]\<rparr>"]
  by (simp add: offers_def arraySort_def mockOffer_def)

subsection \<open>The six transitions of a vote\<close>

lemmas vote_defs = upvote_def downvote_def saveUserVotes_def updateOfferVotes_def removeVote_def
  updateUserVote_def addUserVote_def

lemmas example_defs = mockOffer_def mockResponse_def loadedStore_def initialStore_def fetchNext_def
  fetchError_def pageSize_def

lemma find_filter_neq: "find (\<lambda>v. offerId v = oid) (filter (\<lambda>v. offerId v \<noteq> oid) vs) = None"
  by (induction vs) auto

lemma find_append_new: "find P xs = None \<Longrightarrow> find P (xs @ [x]) = (if P x then Some x else None)"
  by (induction xs) (auto split: if_splits)

lemma find_map_set:
  "find (\<lambda>v. offerId v = oid) vs = Some w \<Longrightarrow>
   find (\<lambda>v. offerId v = oid) (map (\<lambda>v. if offerId v = oid then v\<lparr>voteType := vt\<rparr> else v) vs)
     = Some (w\<lparr>voteType := vt\<rparr>)"
  by (induction vs) (auto split: if_splits)

lemma getUserVote_cases:
  "getUserVote oid s = 0 \<longleftrightarrow> find (\<lambda>v. offerId v = oid) (userVotesSignal s) = None"
  "getUserVote oid s = 1 \<longleftrightarrow> map_option voteType (find (\<lambda>v. offerId v = oid) (userVotesSignal s)) = Some Plus1"
  "getUserVote oid s = - 1 \<longleftrightarrow> map_option voteType (find (\<lambda>v. offerId v = oid) (userVotesSignal s)) = Some Minus1"
  unfolding getUserVote_def
  by (auto split: option.splits elim: voteNumber.elims)

text \<open>The state after each of the six transitions.\<close>

lemma upvote_none:
  "getUserVote oid s = 0 \<Longrightarrow>
   upvote oid s = saveUserVotes (updateOfferVotes oid 1 (addUserVote oid Plus1 s))"
  by (simp add: getUserVote_cases upvote_def)

lemma upvote_up:
  "getUserVote oid s = 1 \<Longrightarrow>
   upvote oid s = saveUserVotes (updateOfferVotes oid (- 1) (removeVote oid s))"
  by (simp add: getUserVote_cases upvote_def)

lemma upvote_down:
  "getUserVote oid s = - 1 \<Longrightarrow>
   upvote oid s = saveUserVotes (updateOfferVotes oid 2 (updateUserVote oid Plus1 s))"
  by (auto simp: getUserVote_cases upvote_def)

lemma downvote_none:
  "getUserVote oid s = 0 \<Longrightarrow>
   downvote oid s = saveUserVotes (updateOfferVotes oid (- 1) (addUserVote oid Minus1 s))"
  by (simp add: getUserVote_cases downvote_def)

lemma downvote_down:
  "getUserVote oid s = - 1 \<Longrightarrow>
   downvote oid s = saveUserVotes (updateOfferVotes oid 1 (removeVote oid s))"
  by (simp add: getUserVote_cases downvote_def)

lemma downvote_up:
  "getUserVote oid s = 1 \<Longrightarrow>
   downvote oid s = saveUserVotes (updateOfferVotes oid (- 2) (updateUserVote oid Minus1 s))"
  by (auto simp: getUserVote_cases downvote_def)

lemma getUserVote_range: "getUserVote oid s = 0 \<or> getUserVote oid s = 1 \<or> getUserVote oid s = - 1"
proof (cases "find (\<lambda>v. offerId v = oid) (userVotesSignal s)")
  case None
  then show ?thesis by (simp add: getUserVote_def)
next
  case (Some v)
  then show ?thesis by (cases "voteType v") (simp_all add: getUserVote_def)
qed

lemma getUserVote_add:
  "getUserVote oid s = 0 \<Longrightarrow>
   getUserVote oid (saveUserVotes (updateOfferVotes oid d (addUserVote oid vt s))) = voteNumber vt"
  by (simp add: getUserVote_cases) (simp add: getUserVote_def vote_defs find_append_new)

lemma getUserVote_remove:
  "getUserVote oid (saveUserVotes (updateOfferVotes oid d (removeVote oid s))) = 0"
  by (simp add: getUserVote_def vote_defs find_filter_neq)

lemma getUserVote_update:
  "getUserVote oid s \<noteq> 0 \<Longrightarrow>
   getUserVote oid (saveUserVotes (updateOfferVotes oid d (updateUserVote oid vt s))) = voteNumber vt"
  by (auto simp: getUserVote_def vote_defs find_map_set split: option.splits)

lemma tally_after:
  assumes "accumulatedOffers s1 = accumulatedOffers s"
  shows "tallyMoved oid d s (saveUserVotes (updateOfferVotes oid d s1))"
proof -
  have "list_all2 (\<lambda>before after.
         if id' before = oid
         then isSafeInteger (votes before + d) \<longrightarrow> votes after = votes before + d
         else votes after = votes before)
       xs (map (\<lambda>offer. if id' offer = oid then offer\<lparr>votes := jsAdd (votes offer) d\<rparr>
                          else offer) xs)" for xs :: "Offer list"
    by (induction xs) (simp_all add: jsAdd_safe)
  then show ?thesis
    by (simp add: tallyMoved_def vote_defs assms)
qed

lemma calls_after:
  "updateVoteCalls (saveUserVotes (updateOfferVotes oid d s)) = updateVoteCalls s @ [(oid, d)]"
  by (simp add: vote_defs)

lemma votes_signal_frame [simp]:
  "accumulatedOffers (addUserVote oid vt s) = accumulatedOffers s"
  "accumulatedOffers (removeVote oid s) = accumulatedOffers s"
  "accumulatedOffers (updateUserVote oid vt s) = accumulatedOffers s"
  "updateVoteCalls (addUserVote oid vt s) = updateVoteCalls s"
  "updateVoteCalls (removeVote oid s) = updateVoteCalls s"
  "updateVoteCalls (updateUserVote oid vt s) = updateVoteCalls s"
  by (simp_all add: vote_defs)

text \<open>
  Claim C2, as stated, fails: the tally is a number, and an upvote on an offer without a
  vote whose tally is \<open>2 ^ 53\<close> leaves the tally at \<open>2 ^ 53\<close>, not one more.
\<close>

theorem toggle_table_counterexample:
  "getUserVote ''test-1'' bigStore = 0
   \<and> map votes (accumulatedOffers bigStore) = [9007199254740992]
   \<and> getUserVote ''test-1'' (upvote ''test-1'' bigStore) = 1
   \<and> map votes (accumulatedOffers (upvote ''test-1'' bigStore)) = [9007199254740992]"
  by (simp add: bigStore_def bigOffer_def example_defs vote_defs getUserVote_def jsAdd_above)

text \<open>
  Claim C2, amended. Whatever the offer id and the vote the user has on it, \<^verbatim>\<open>upvote\<close>
  and \<^verbatim>\<open>downvote\<close> follow the six rows of the toggle table, the change of the tally
  holding for every offer whose changed tally is a safe integer. With no vote, an upvote
  records +1 and moves the tally by +1, a downvote records -1 and moves it by -1. On an
  upvoted offer, an upvote removes the vote and moves the tally by -1, a downvote records
  -1 and moves it by -2. On a downvoted offer, a downvote removes the vote and moves the
  tally by +1, an upvote records +1 and moves it by +2.
\<close>

theorem toggle_table:
  "(getUserVote oid s = 0 \<longrightarrow>
      tableRow oid s (upvote oid s) 1 1 \<and> tableRow oid s (downvote oid s) (- 1) (- 1))
   \<and> (getUserVote oid s = 1 \<longrightarrow>
      tableRow oid s (upvote oid s) 0 (- 1) \<and> tableRow oid s (downvote oid s) (- 1) (- 2))
   \<and> (getUserVote oid s = - 1 \<longrightarrow>
      tableRow oid s (downvote oid s) 0 1 \<and> tableRow oid s (upvote oid s) 1 2)"
proof (intro conjI impI)
  assume n: "getUserVote oid s = 0"
  show "tableRow oid s (upvote oid s) 1 1"
    using n by (simp add: tableRow_def upvote_none getUserVote_add tally_after calls_after)
  show "tableRow oid s (downvote oid s) (- 1) (- 1)"
    using n by (simp add: tableRow_def downvote_none getUserVote_add tally_after calls_after)
next
  assume u: "getUserVote oid s = 1"
  show "tableRow oid s (upvote oid s) 0 (- 1)"
    using u by (simp add: tableRow_def upvote_up getUserVote_remove tally_after calls_after)
  show "tableRow oid s (downvote oid s) (- 1) (- 2)"
    using u by (simp add: tableRow_def downvote_up getUserVote_update tally_after calls_after)
next
  assume d: "getUserVote oid s = - 1"
  show "tableRow oid s (downvote oid s) 0 1"
    using d by (simp add: tableRow_def downvote_down getUserVote_remove tally_after calls_after)
  show "tableRow oid s (upvote oid s) 1 2"
    using d by (simp add: tableRow_def upvote_down getUserVote_update tally_after calls_after)
qed

theorem toggle_table_witness:
  "getUserVote ''test-1'' (loadedStore []) = 0
   \<and> tableRow ''test-1'' (loadedStore []) (upvote ''test-1'' (loadedStore [])) 1 1
   \<and> map votes (accumulatedOffers (loadedStore [])) = [10]
   \<and> isSafeInteger (10 + 1)
   \<and> map votes (accumulatedOffers (upvote ''test-1'' (loadedStore []))) = [11]
   \<and> tableRow ''test-1'' (loadedStore []) (downvote ''test-1'' (loadedStore [])) (- 1) (- 1)
   \<and> getUserVote ''test-1'' (loadedStore [\<lparr>offerId = ''test-1'', voteType = Plus1\<rparr>]) = 1
   \<and> tableRow ''test-1'' (loadedStore [\<lparr>offerId = ''test-1'', voteType = Plus1\<rparr>])
        (upvote ''test-1'' (loadedStore [\<lparr>offerId = ''test-1'', voteType = Plus1\<rparr>])) 0 (- 1)
   \<and> tableRow ''test-1'' (loadedStore [\<lparr>offerId = ''test-1'', voteType = Plus1\<rparr>])
        (downvote ''test-1'' (loadedStore [\<lparr>offerId = ''test-1'', voteType = Plus1\<rparr>])) (- 1) (- 2)
   \<and> getUserVote ''test-1'' (loadedStore [\<lparr>offerId = ''test-1'', voteType = Minus1\<rparr>]) = - 1
   \<and> tableRow ''test-1'' (loadedStore [\<lparr>offerId = ''test-1'', voteType = Minus1\<rparr>])
        (downvote ''test-1'' (loadedStore [\<lparr>offerId = ''test-1'', voteType = Minus1\<rparr>])) 0 1
   \<and> tableRow ''test-1'' (loadedStore [\<lparr>offerId = ''test-1'', voteType = Minus1\<rparr>])
        (upvote ''test-1'' (loadedStore [\<lparr>offerId = ''test-1'', voteType = Minus1\<rparr>])) 1 2"
  using toggle_table [of "''test-1''" "loadedStore []"]
    toggle_table [of "''test-1''" "loadedStore [\<lparr>offerId = ''test-1'', voteType = Plus1\<rparr>]"]
    toggle_table [of "''test-1''" "loadedStore [\<lparr>offerId = ''test-1'', voteType = Minus1\<rparr>]"]
  by (simp add: getUserVote_def example_defs vote_defs jsAdd_safe isSafeInteger_def)

subsection \<open>Rollback of the tally\<close>

text \<open>
  The error callback touches the accumulated offers only, and \<^verbatim>\<open>saveUserVotes\<close> the
  storage slot only, so a data source that fails inside the call (before the votes are
  saved) and one that fails later leave the same state.
\<close>

lemma updateVoteError_saveUserVotes:
  "updateVoteError oid d (saveUserVotes s) = saveUserVotes (updateVoteError oid d s)"
  by (simp add: updateVoteError_def saveUserVotes_def)

lemma rollback_safe:
  assumes "accumulatedOffers s1 = accumulatedOffers s"
  shows "rolledBack oid d s (updateVoteError oid d (saveUserVotes (updateOfferVotes oid d s1)))"
proof -
  have "list_all2 (\<lambda>before after.
         (id' before = oid \<longrightarrow> isSafeInteger (votes before) \<and> isSafeInteger (votes before + d))
         \<longrightarrow> after = before)
       xs (map (\<lambda>offer. if id' offer = oid then offer\<lparr>votes := jsSub (votes offer) d\<rparr>
                          else offer)
            (map (\<lambda>offer. if id' offer = oid then offer\<lparr>votes := jsAdd (votes offer) d\<rparr>
                          else offer) xs))" for xs :: "Offer list"
    by (induction xs) (simp_all add: jsAdd_safe jsSub_safe)
  then show ?thesis
    by (simp add: rolledBack_def updateVoteError_def vote_defs assms)
qed

lemma updateVoteError_frame [simp]:
  "userVotesSignal (updateVoteError oid d s) = userVotesSignal s"
  "localStorage (updateVoteError oid d s) = localStorage s"
  "getUserVote oid' (updateVoteError oid d s) = getUserVote oid' s"
  by (simp_all add: updateVoteError_def getUserVote_def)

lemma vote_shape:
  assumes "vote = upvote \<or> vote = downvote"
  obtains d s1 where "vote oid s = saveUserVotes (updateOfferVotes oid d s1)"
    and "accumulatedOffers s1 = accumulatedOffers s" and "updateVoteCalls s1 = updateVoteCalls s"
    and "currentPage s1 = currentPage s" and "offersResource s1 = offersResource s"
  using assms getUserVote_range [of oid s]
  by (elim disjE)
     (simp_all add: upvote_none upvote_up upvote_down downvote_none downvote_up downvote_down,
      (fastforce simp: vote_defs)+)

text \<open>
  Claim C1, as stated, fails: the tally is a number. An upvote on an offer whose tally is
  \<open>2 ^ 53\<close> sends the change 1 and leaves the tally at \<open>2 ^ 53\<close>; when that vote
  update fails, the error callback subtracts 1 and leaves \<open>2 ^ 53 - 1\<close>, not the tally
  of before.
\<close>

theorem tally_rollback_counterexample:
  "map votes (accumulatedOffers bigStore) = [9007199254740992]
   \<and> updateVoteCalls (upvote ''test-1'' bigStore) = [(''test-1'', 1)]
   \<and> map votes (accumulatedOffers (updateVoteError ''test-1'' 1 (upvote ''test-1'' bigStore))) =
       [9007199254740991]"
  by (simp add: bigStore_def bigOffer_def example_defs vote_defs updateVoteError_def
      jsAdd_above jsSub_above)

text \<open>
  Claim C1, amended. When \<^verbatim>\<open>upvote\<close> or \<^verbatim>\<open>downvote\<close> has sent the data source the
  change \<open>d\<close> for an offer id and that vote update then fails, the error callback gives
  back its tally to every accumulated offer whose tally and tally moved by \<open>d\<close> are
  safe integers (the offer is the one of before the vote; an offer with another id always
  is), while the user's votes, the stored copy and \<^verbatim>\<open>getUserVote\<close> stay as the vote left
  them: only the tally rolls back.
\<close>

theorem tally_rollback:
  assumes "vote = upvote \<or> vote = downvote"
    and "updateVoteCalls (vote oid s) = updateVoteCalls s @ [(oid, d)]"
  shows "rolledBack oid d s (updateVoteError oid d (vote oid s))
    \<and> userVotesSignal (updateVoteError oid d (vote oid s)) = userVotesSignal (vote oid s)
    \<and> localStorage (updateVoteError oid d (vote oid s)) = localStorage (vote oid s)
    \<and> getUserVote oid (updateVoteError oid d (vote oid s)) = getUserVote oid (vote oid s)"
proof -
  obtain d' s1 where shape: "vote oid s = saveUserVotes (updateOfferVotes oid d' s1)"
    and same: "accumulatedOffers s1 = accumulatedOffers s" "updateVoteCalls s1 = updateVoteCalls s"
    using assms(1) by (rule vote_shape)
  have "d' = d"
    using assms(2) by (simp add: shape calls_after same)
  then show ?thesis
    using rollback_safe [OF same(1), of oid d] by (simp add: shape)
qed

theorem tally_rollback_witness:
  "updateVoteCalls (upvote ''test-1'' (loadedStore [])) =
     updateVoteCalls (loadedStore []) @ [(''test-1'', 1)]
   \<and> map votes (accumulatedOffers (loadedStore [])) = [10]
   \<and> isSafeInteger 10 \<and> isSafeInteger (10 + 1)
   \<and> map votes (accumulatedOffers (upvote ''test-1'' (loadedStore []))) = [11]
   \<and> rolledBack ''test-1'' 1 (loadedStore [])
         (updateVoteError ''test-1'' 1 (upvote ''test-1'' (loadedStore [])))
   \<and> accumulatedOffers (updateVoteError ''test-1'' 1 (upvote ''test-1'' (loadedStore []))) =
       accumulatedOffers (loadedStore [])
   \<and> getUserVote ''test-1''
         (updateVoteError ''test-1'' 1 (upvote ''test-1'' (loadedStore []))) = 1"
  using tally_rollback [of upvote "''test-1''" "loadedStore []" 1]
  by (simp add: example_defs vote_defs getUserVote_def updateVoteError_def rolledBack_def
      jsAdd_safe jsSub_safe isSafeInteger_def)

subsection \<open>Votes on offers that are not accumulated, and the frame of a vote\<close>

lemma absent_unchanged:
  assumes "oid \<notin> id' ` set (accumulatedOffers s)"
  shows "accumulatedOffers (saveUserVotes (updateOfferVotes oid d s)) = accumulatedOffers s"
proof -
  have "map (\<lambda>offer. if id' offer = oid then offer\<lparr>votes := jsAdd (votes offer) d\<rparr>
                     else offer) xs = xs"
    if "oid \<notin> id' ` set xs" for xs :: "Offer list"
    using that by (induction xs) auto
  from this [OF assms] show ?thesis
    by (simp add: vote_defs)
qed

lemma saved_after:
  "localStorage (saveUserVotes s) = Some (JSON_stringify (userVotesSignal (saveUserVotes s)))"
  by (simp add: saveUserVotes_def)

lemma vote_saved:
  "localStorage (upvote oid s) = Some (JSON_stringify (userVotesSignal (upvote oid s)))"
  "localStorage (downvote oid s) = Some (JSON_stringify (userVotesSignal (downvote oid s)))"
  unfolding upvote_def downvote_def Let_def by (rule saved_after)+

lemma upvote_vote:
  "getUserVote oid (upvote oid s) = (if getUserVote oid s = 1 then 0 else 1)"
  using getUserVote_range [of oid s]
  by (auto simp: upvote_none upvote_up upvote_down getUserVote_add getUserVote_remove
      getUserVote_update)

lemma downvote_vote:
  "getUserVote oid (downvote oid s) = (if getUserVote oid s = - 1 then 0 else - 1)"
  using getUserVote_range [of oid s]
  by (auto simp: downvote_none downvote_up downvote_down getUserVote_add getUserVote_remove
      getUserVote_update)

text \<open>
  Claim C8. For an offer id that no accumulated offer has, \<^verbatim>\<open>upvote\<close> and
  \<^verbatim>\<open>downvote\<close> leave the accumulated offers as they are, and still record the vote as
  the toggle table says (created, flipped or removed) and still write the new vote list to
  the storage slot.
\<close>

theorem absent_offer_vote:
  assumes "oid \<notin> id' ` set (accumulatedOffers s)"
  shows "accumulatedOffers (upvote oid s) = accumulatedOffers s
    \<and> accumulatedOffers (downvote oid s) = accumulatedOffers s
    \<and> getUserVote oid (upvote oid s) = (if getUserVote oid s = 1 then 0 else 1)
    \<and> getUserVote oid (downvote oid s) = (if getUserVote oid s = - 1 then 0 else - 1)
    \<and> localStorage (upvote oid s) = Some (JSON_stringify (userVotesSignal (upvote oid s)))
    \<and> localStorage (downvote oid s) = Some (JSON_stringify (userVotesSignal (downvote oid s)))"
proof -
  have "accumulatedOffers (vote oid s) = accumulatedOffers s"
    if v: "vote = upvote \<or> vote = downvote" for vote
  proof -
    obtain d s1 where "vote oid s = saveUserVotes (updateOfferVotes oid d s1)"
      and "accumulatedOffers s1 = accumulatedOffers s"
      using v by (rule vote_shape)
    then show ?thesis
      using assms absent_unchanged [of oid s1 d] by simp
  qed
  then show ?thesis
    by (simp add: upvote_vote downvote_vote vote_saved)
qed

theorem absent_offer_vote_witness:
  "''other'' \<notin> id' ` set (accumulatedOffers (loadedStore []))
   \<and> accumulatedOffers (upvote ''other'' (loadedStore [])) = [mockOffer]
   \<and> getUserVote ''other'' (upvote ''other'' (loadedStore [])) = 1
   \<and> userVotesSignal (upvote ''other'' (loadedStore [])) = [\<lparr>offerId = ''other'', voteType = Plus1\<rparr>]
   \<and> localStorage (upvote ''other'' (loadedStore [])) =
       Some (JSON_stringify [\<lparr>offerId = ''other'', voteType = Plus1\<rparr>])"
  using absent_offer_vote [of "''other''" "loadedStore []"]
  by (simp add: example_defs vote_defs getUserVote_def)

lemma update_frame:
  "list_all2 (\<lambda>before after. (id' before \<noteq> oid \<longrightarrow> after = before) \<and>
                               after\<lparr>votes := votes before\<rparr> = before)
     xs (map (\<lambda>offer. if id' offer = oid then offer\<lparr>votes := jsAdd (votes offer) d\<rparr>
                        else offer) xs)"
  by (induction xs) simp_all

text \<open>
  Claim C10. Within the call, \<^verbatim>\<open>upvote\<close> and \<^verbatim>\<open>downvote\<close> change nothing of the
  accumulated offers but the \<^verbatim>\<open>votes\<close> of the offers with the given id: every other
  offer is the same, every other field of a changed offer is the same, and the cursor,
  \<^verbatim>\<open>loading()\<close> and \<^verbatim>\<open>error()\<close> are the same.
\<close>

theorem vote_frame:
  "onlyVotesOf oid s (upvote oid s) \<and> onlyVotesOf oid s (downvote oid s)"
proof -
  have "onlyVotesOf oid s (vote oid s)" if v: "vote = upvote \<or> vote = downvote" for vote
  proof -
    obtain d s1 where "vote oid s = saveUserVotes (updateOfferVotes oid d s1)"
      and "accumulatedOffers s1 = accumulatedOffers s"
      and "currentPage s1 = currentPage s" and "offersResource s1 = offersResource s"
      using v by (rule vote_shape)
    then show ?thesis
      using update_frame [of oid "accumulatedOffers s" d]
      by (simp add: onlyVotesOf_def loading_def error_def saveUserVotes_def updateOfferVotes_def)
  qed
  then show ?thesis by simp
qed

theorem vote_frame_witness:
  "onlyVotesOf ''test-1'' (loadedStore []) (upvote ''test-1'' (loadedStore []))
   \<and> accumulatedOffers (upvote ''test-1'' (loadedStore [])) = [mockOffer\<lparr>votes := 11\<rparr>]
   \<and> onlyVotesOf ''other'' (loadedStore []) (downvote ''other'' (loadedStore []))
   \<and> accumulatedOffers (downvote ''other'' (loadedStore [])) = [mockOffer]"
  using vote_frame [of "''test-1''" "loadedStore []"] vote_frame [of "''other''" "loadedStore []"]
  by (simp add: example_defs vote_defs jsAdd_safe isSafeInteger_def)

subsection \<open>A page fetch that fails\<close>

text \<open>
  Claim C5 says that after a failed page fetch the next \<^verbatim>\<open>loadNextPage()\<close> fetches the
  page again. In the code, once the fetch has failed, \<^verbatim>\<open>loading()\<close> is false, so
  \<^verbatim>\<open>loadNextPage()\<close> reads \<^verbatim>\<open>hasMore()\<close>, which throws the error of the resource:
  the call throws, whatever the state the fetch failed in. For the store whose first page
  failed, the call leaves the state as it is: the cursor stays at 0 and the only call the
  data source ever got is the one for page 0, however often \<^verbatim>\<open>loadNextPage()\<close> is called.
\<close>

theorem loadNextPage_after_failure:
  "loadNextPage (fetchError message s) = Inl (ResourceValueError message)
   \<and> loadNextPage firstPageFailed = Inl (ResourceValueError ''Network error'')
   \<and> run firstPageFailed [LoadNextPage, LoadNextPage] = firstPageFailed
   \<and> currentPage firstPageFailed = 0
   \<and> getOffersCalls firstPageFailed = [(0, 10)]"
  by (simp add: firstPageFailed_def example_defs run_def loadNextPage_def loading_def hasMore_def)

subsection \<open>One page fetch at a time\<close>

lemma oneFetch_initial: "oneFetch (initialStore loaded storage)"
  by (simp add: oneFetch_def initialStore_def loading_def)

lemma vote_resource:
  "fetchesInFlight (upvote oid s) = fetchesInFlight s"
  "fetchesInFlight (downvote oid s) = fetchesInFlight s"
  "offersResource (upvote oid s) = offersResource s"
  "offersResource (downvote oid s) = offersResource s"
  "currentPage (upvote oid s) = currentPage s"
  "currentPage (downvote oid s) = currentPage s"
  by (simp_all add: vote_defs Let_def)

lemma oneFetch_step: "oneFetch s \<Longrightarrow> oneFetch (step s e)"
proof (cases e)
  case LoadNextPage
  assume "oneFetch s"
  then show ?thesis
    unfolding LoadNextPage
    by (auto simp: oneFetch_def loadNextPage_def loading_def split: sum.splits if_splits)
next
  case (FetchNext response)
  assume "oneFetch s"
  then show ?thesis
    unfolding FetchNext
    by (auto simp: oneFetch_def fetchNext_def loading_def split: if_splits)
next
  case (FetchError message)
  assume "oneFetch s"
  then show ?thesis
    unfolding FetchError
    by (auto simp: oneFetch_def fetchError_def loading_def split: if_splits)
next
  case (Upvote oid)
  assume "oneFetch s"
  then show ?thesis
    unfolding Upvote by (simp add: oneFetch_def loading_def vote_resource)
next
  case (Downvote oid)
  assume "oneFetch s"
  then show ?thesis
    unfolding Downvote by (simp add: oneFetch_def loading_def vote_resource)
next
  case (UpdateVoteError oid change)
  assume "oneFetch s"
  then show ?thesis
    unfolding UpdateVoteError by (simp add: oneFetch_def loading_def updateVoteError_def)
qed

lemma oneFetch_run: "oneFetch s \<Longrightarrow> oneFetch (run s events)"
  unfolding run_def
  by (induction events arbitrary: s) (simp_all add: oneFetch_step)

text \<open>
  Claim C6. In a state where a page fetch is in flight (\<^verbatim>\<open>loading()\<close> is true) or where
  \<^verbatim>\<open>hasMore()\<close> is false, \<^verbatim>\<open>loadNextPage()\<close> returns and leaves the whole state as it
  is: the cursor does not move and no call goes to the data source. So in every run of a
  constructed store at most one page fetch is in flight.
\<close>

theorem loading_mutex:
  "((loading s \<or> hasMore s = Inr False) \<longrightarrow> loadNextPage s = Inr s)
   \<and> length (fetchesInFlight (run (initialStore loaded storage) events)) \<le> 1"
proof -
  have "oneFetch (run (initialStore loaded storage) events)"
    by (rule oneFetch_run) (rule oneFetch_initial)
  then show ?thesis
    by (auto simp: loadNextPage_def oneFetch_def)
qed

theorem loading_mutex_witness:
  "loading (initialStore [] None)
   \<and> loadNextPage (initialStore [] None) = Inr (initialStore [] None)
   \<and> hasMore (loadedStore []) = Inr False
   \<and> loadNextPage (loadedStore []) = Inr (loadedStore [])
   \<and> fetchesInFlight (run (initialStore [] None)
         [LoadNextPage, FetchNext (mockResponse\<lparr>r_hasMore := True\<rparr>), LoadNextPage,
          LoadNextPage]) = [1]"
  using loading_mutex [of "initialStore [] None" "[]" None "[]"]
    loading_mutex [of "loadedStore []" "[]" None "[]"]
    loading_mutex [of "initialStore [] None" "[]" None
      "[LoadNextPage, FetchNext (mockResponse\<lparr>r_hasMore := True\<rparr>), LoadNextPage,
        LoadNextPage]"]
  by (simp add: example_defs run_def loadNextPage_def loading_def hasMore_def)

subsection \<open>Loading the stored votes\<close>

lemma JSON_stringify_nonempty: "JSON_stringify vs \<noteq> []"
  by (simp add: JSON_stringify_def)

lemma newStore_stringify:
  "newStore (Some (JSON_stringify vs)) = Constructed (initialStore vs (Some (JSON_stringify vs)))"
  by (simp add: newStore_def loadUserVotes_def JSON_stringify_nonempty JSON_parse_stringify
      decodeUserVotes_voteJson)

lemma newStore_finishes: "newStore storage \<noteq> Unfinished"
  using JSON_parse_total
  by (auto simp: newStore_def loadUserVotes_def split: option.splits ParseResult.splits)

text \<open>
  Claim C4 asks that loading the stored votes never throws: an absent value and a value
  that is not JSON both give the empty vote list. The code does so for the absent value
  (and for the empty string), but for the stored text \<^verbatim>\<open>not json\<close> the constructor
  throws the \<^verbatim>\<open>SyntaxError\<close> of \<^verbatim>\<open>JSON.parse\<close>.
\<close>

theorem loadUserVotes_unparsable:
  "newStore None = Constructed (initialStore [] None)
   \<and> newStore (Some '''') = Constructed (initialStore [] (Some ''''))
   \<and> loadUserVotes (Some ''not json'') = SyntaxErrorThrown
   \<and> newStore (Some ''not json'') = Thrown SyntaxError"
  by (simp add: newStore_def loadUserVotes_def decodeUserVotes_def JSON_parse_def
      skipWhitespace_def isWhitespace_def eval_nat_numeral parseNumber_def parseSign_def
      parseInt_def isDigit_def)

text \<open>
  Claim C7. For an offer id the user has no vote on, after \<^verbatim>\<open>upvote\<close> the storage slot
  holds a text from which a new store is constructed with the same vote list, so that its
  \<^verbatim>\<open>getUserVote\<close> of the id is 1.
\<close>

theorem persistence_round_trip:
  assumes "getUserVote oid s = 0"
  shows "\<exists>stored. localStorage (upvote oid s) = Some stored
    \<and> newStore (Some stored) =
        Constructed (initialStore (userVotesSignal (upvote oid s)) (Some stored))
    \<and> getUserVote oid (initialStore (userVotesSignal (upvote oid s)) (Some stored)) = 1"
proof -
  have "getUserVote oid (upvote oid s) = 1"
    using assms by (simp add: upvote_vote)
  then have "getUserVote oid (initialStore (userVotesSignal (upvote oid s)) storage) = 1" for storage
    by (simp add: getUserVote_def initialStore_def)
  then show ?thesis
    by (simp add: vote_saved newStore_stringify)
qed

theorem persistence_round_trip_witness:
  "getUserVote ''test-1'' (loadedStore []) = 0
   \<and> localStorage (upvote ''test-1'' (loadedStore [])) =
       Some (JSON_stringify [\<lparr>offerId = ''test-1'', voteType = Plus1\<rparr>])
   \<and> newStore (Some (JSON_stringify [\<lparr>offerId = ''test-1'', voteType = Plus1\<rparr>])) =
       Constructed (initialStore [\<lparr>offerId = ''test-1'', voteType = Plus1\<rparr>]
         (Some (JSON_stringify [\<lparr>offerId = ''test-1'', voteType = Plus1\<rparr>])))
   \<and> getUserVote ''test-1'' (initialStore [\<lparr>offerId = ''test-1'', voteType = Plus1\<rparr>]
         (Some (JSON_stringify [\<lparr>offerId = ''test-1'', voteType = Plus1\<rparr>]))) = 1"
  using persistence_round_trip [of "''test-1''" "loadedStore []"]
  by (simp add: example_defs vote_defs getUserVote_def)

section \<open>Properties of the data source\<close>

text \<open>
  Claim C9, as stated, fails: the totals are numbers. For an offer fetched with the total
  \<open>2 ^ 53\<close> and the change 1, \<^verbatim>\<open>updateVote\<close> returns \<open>2 ^ 53\<close>, not one more.
\<close>

theorem updateVote_total_counterexample:
  "lastKnownTotal \<lparr>allOffers = Some [bigOffer], votesCache = Map.empty\<rparr> ''test-1'' =
     Some (Finite 9007199254740992)
   \<and> fst (updateVote ''test-1'' 1 \<lparr>allOffers = Some [bigOffer], votesCache = Map.empty\<rparr>) =
       Finite 9007199254740992"
proof -
  have "toNumber 9007199254740992 = Finite 9007199254740992"
    by (simp add: toNumber_def)
  then show ?thesis
    by (simp add: updateVote_def lastKnownTotal_def bigOffer_def mockOffer_def numberAdd_def
        jsAdd_above Let_def)
qed

text \<open>
  Claim C9, amended. For every offer id and change, \<^verbatim>\<open>updateVote\<close> returns the total the
  data source knows for the id plus the change whenever that sum is a safe integer, where
  an id it does not know counts as 0: for such an id it returns the change itself, and
  does not fail. The returned total is then the one it knows for the id.
\<close>

theorem updateVote_total:
  "(\<forall>known. lastKnownTotal api oid = Some (Finite known) \<longrightarrow> isSafeInteger (known + delta) \<longrightarrow>
      fst (updateVote oid delta api) = Finite (known + delta))
   \<and> (lastKnownTotal api oid = None \<longrightarrow> isSafeInteger delta \<longrightarrow>
      fst (updateVote oid delta api) = Finite delta)
   \<and> lastKnownTotal (snd (updateVote oid delta api)) oid = Some (fst (updateVote oid delta api))"
  using numberAdd_safe [of 0 delta]
  by (auto simp: updateVote_def lastKnownTotal_def Let_def numberAdd_safe split: option.splits)

theorem updateVote_total_witness:
  "lastKnownTotal \<lparr>allOffers = None, votesCache = Map.empty\<rparr> ''non-existent'' = None
   \<and> isSafeInteger 1
   \<and> fst (updateVote ''non-existent'' 1 \<lparr>allOffers = None, votesCache = Map.empty\<rparr>) = Finite 1
   \<and> lastKnownTotal \<lparr>allOffers = Some [mockOffer], votesCache = Map.empty\<rparr> ''test-1'' =
       Some (Finite 10)
   \<and> isSafeInteger (10 + 1)
   \<and> fst (updateVote ''test-1'' 1 \<lparr>allOffers = Some [mockOffer], votesCache = Map.empty\<rparr>) =
       Finite 11
   \<and> lastKnownTotal
         (snd (updateVote ''test-1'' 1 \<lparr>allOffers = Some [mockOffer], votesCache = Map.empty\<rparr>))
         ''test-1'' = Some (Finite 11)"
  using updateVote_total [of "\<lparr>allOffers = None, votesCache = Map.empty\<rparr>" "''non-existent''" 1]
    updateVote_total [of "\<lparr>allOffers = Some [mockOffer], votesCache = Map.empty\<rparr>" "''test-1''" 1]
  by (simp add: lastKnownTotal_def mockOffer_def isSafeInteger_def)

end
